theory Spec2Isabelle
  imports Main
begin

section \<open>Python values\<close>

text \<open>
  The program handles the values that \<^verbatim>\<open>response.json()\<close> returns and the lines
  that \<^verbatim>\<open>input()\<close> reads. A Python \<^verbatim>\<open>str\<close> is a \<^typ>\<open>string\<close> whose characters are
  the code points below 256; a \<^verbatim>\<open>dict\<close> is the list of its items in insertion order;
  \<^verbatim>\<open>None\<close> is \<open>JNull\<close>. Floating-point numbers are left out.
\<close>

datatype json =
    JNull
  | JBool bool
  | JInt int
  | JStr string
  | JList "json list"
  | JObj "(string \<times> json) list"

text \<open>
  The exceptions that the operations of the program raise. Only
  \<^verbatim>\<open>requests.exceptions.RequestException\<close> carries its text, which the handlers print.
  The \<^verbatim>\<open>ValueError\<close> of \<^verbatim>\<open>int()\<close> never leaves its handler: it is the \<open>None\<close> of
  \<open>py_int\<close> below.
\<close>

datatype error =
    RequestException string
  | KeyError
  | IndexError
  | TypeError
  | AttributeError
  | EOFError

text \<open>\<^verbatim>\<open>bool(v)\<close>, as \<^verbatim>\<open>if v\<close> and \<^verbatim>\<open>not v\<close> take it.\<close>

fun truthy :: "json \<Rightarrow> bool" where
  "truthy JNull = False"
| "truthy (JBool b) = b"
| "truthy (JInt i) = (i \<noteq> 0)"
| "truthy (JStr s) = (s \<noteq> [])"
| "truthy (JList xs) = (xs \<noteq> [])"
| "truthy (JObj kvs) = (kvs \<noteq> [])"

text \<open>\<^verbatim>\<open>v[key]\<close> with a string key: only a dict has string keys.\<close>

fun py_getitem :: "json \<Rightarrow> string \<Rightarrow> error + json" where
  "py_getitem (JObj kvs) k = (case map_of kvs k of None \<Rightarrow> Inl KeyError | Some v \<Rightarrow> Inr v)"
| "py_getitem v k = Inl TypeError"

text \<open>\<^verbatim>\<open>v.get(key, default)\<close>: a method of dicts only.\<close>

fun py_get :: "json \<Rightarrow> string \<Rightarrow> json \<Rightarrow> error + json" where
  "py_get (JObj kvs) k d = (case map_of kvs k of None \<Rightarrow> Inr d | Some v \<Rightarrow> Inr v)"
| "py_get v k d = Inl AttributeError"

text \<open>\<^verbatim>\<open>v[:n]\<close>.\<close>

fun py_slice :: "json \<Rightarrow> nat \<Rightarrow> error + json" where
  "py_slice (JStr s) n = Inr (JStr (take n s))"
| "py_slice (JList xs) n = Inr (JList (take n xs))"
| "py_slice v n = Inl TypeError"

text \<open>The elements that \<^verbatim>\<open>for x in v\<close>, \<^verbatim>\<open>enumerate(v)\<close> and \<^verbatim>\<open>list.extend(v)\<close> run through.\<close>

fun py_iter :: "json \<Rightarrow> error + json list" where
  "py_iter (JList xs) = Inr xs"
| "py_iter (JObj kvs) = Inr (map (\<lambda>kv. JStr (fst kv)) kvs)"
| "py_iter (JStr s) = Inr (map (\<lambda>c. JStr [c]) s)"
| "py_iter v = Inl TypeError"

text \<open>\<^verbatim>\<open>len(v)\<close>.\<close>

fun py_len :: "json \<Rightarrow> error + nat" where
  "py_len (JList xs) = Inr (length xs)"
| "py_len (JObj kvs) = Inr (length kvs)"
| "py_len (JStr s) = Inr (length s)"
| "py_len v = Inl TypeError"

text \<open>\<^verbatim>\<open>v[i]\<close> for an integer \<open>i \<ge> 0\<close>; the program uses no negative index.\<close>

fun py_index :: "json \<Rightarrow> nat \<Rightarrow> error + json" where
  "py_index (JList xs) i = (if i < length xs then Inr (xs ! i) else Inl IndexError)"
| "py_index (JStr s) i = (if i < length s then Inr (JStr [s ! i]) else Inl IndexError)"
| "py_index (JObj kvs) i = Inl KeyError"
| "py_index v i = Inl TypeError"

text \<open>\<^verbatim>\<open>list(v.keys())\<close>.\<close>

fun py_keys :: "json \<Rightarrow> error + string list" where
  "py_keys (JObj kvs) = Inr (map fst kvs)"
| "py_keys v = Inl AttributeError"

subsection \<open>Text\<close>

definition is_space :: "char \<Rightarrow> bool" where
  "is_space c = (c \<in> set [CHR 0x09, CHR 0x0A, CHR 0x0B, CHR 0x0C, CHR 0x0D,
     CHR 0x1C, CHR 0x1D, CHR 0x1E, CHR 0x1F, CHR 0x20, CHR 0x85, CHR 0xA0])"

text \<open>\<^verbatim>\<open>s.strip()\<close>.\<close>

definition strip :: "string \<Rightarrow> string" where
  "strip s = rev (dropWhile is_space (rev (dropWhile is_space s)))"

text \<open>
  \<^verbatim>\<open>s.lower()\<close>: the capital letters below 256 are A to Z and 0xC0 to 0xDE without
  0xD7; each has its small letter 32 places further.
\<close>

definition upper_letters :: string where
  "upper_letters = ''ABCDEFGHIJKLMNOPQRSTUVWXYZ'' @
     [CHR 0xC0, CHR 0xC1, CHR 0xC2, CHR 0xC3, CHR 0xC4, CHR 0xC5, CHR 0xC6, CHR 0xC7,
      CHR 0xC8, CHR 0xC9, CHR 0xCA, CHR 0xCB, CHR 0xCC, CHR 0xCD, CHR 0xCE, CHR 0xCF,
      CHR 0xD0, CHR 0xD1, CHR 0xD2, CHR 0xD3, CHR 0xD4, CHR 0xD5, CHR 0xD6, CHR 0xD8,
      CHR 0xD9, CHR 0xDA, CHR 0xDB, CHR 0xDC, CHR 0xDD, CHR 0xDE]"

definition lower_letters :: string where
  "lower_letters = ''abcdefghijklmnopqrstuvwxyz'' @
     [CHR 0xE0, CHR 0xE1, CHR 0xE2, CHR 0xE3, CHR 0xE4, CHR 0xE5, CHR 0xE6, CHR 0xE7,
      CHR 0xE8, CHR 0xE9, CHR 0xEA, CHR 0xEB, CHR 0xEC, CHR 0xED, CHR 0xEE, CHR 0xEF,
      CHR 0xF0, CHR 0xF1, CHR 0xF2, CHR 0xF3, CHR 0xF4, CHR 0xF5, CHR 0xF6, CHR 0xF8,
      CHR 0xF9, CHR 0xFA, CHR 0xFB, CHR 0xFC, CHR 0xFD, CHR 0xFE]"

definition lower_char :: "char \<Rightarrow> char" where
  "lower_char c = (case map_of (zip upper_letters lower_letters) c of None \<Rightarrow> c | Some l \<Rightarrow> l)"

definition lower :: "string \<Rightarrow> string" where
  "lower s = map lower_char s"

definition is_digit :: "char \<Rightarrow> bool" where
  "is_digit c = (c \<in> set ''0123456789'')"

definition digit_val :: "char \<Rightarrow> int" where
  "digit_val c = int (of_char c - (48 :: nat))"

text \<open>The digits of a decimal literal: single underscores may stand between two digits.\<close>

fun digits_ok :: "string \<Rightarrow> bool" where
  "digits_ok [] = False"
| "digits_ok [c] = is_digit c"
| "digits_ok (c # d # cs) =
     (is_digit c \<and> (if d = CHR ''_'' then digits_ok cs else digits_ok (d # cs)))"

definition max_str_digits :: nat where
  "max_str_digits = 4300"

text \<open>
  \<^verbatim>\<open>int(s)\<close>: \<open>None\<close> stands for the \<^verbatim>\<open>ValueError\<close>. Surrounding whitespace and one sign
  are accepted; more than 4300 digits are refused.
\<close>

definition py_int :: "string \<Rightarrow> int option" where
  "py_int s =
     (let t = strip s;
          neg = (t \<noteq> [] \<and> hd t = CHR ''-'');
          ds = (if t \<noteq> [] \<and> hd t \<in> set ''+-'' then tl t else t);
          n = foldl (\<lambda>a c. 10 * a + digit_val c) 0 (filter is_digit ds)
      in if digits_ok ds \<and> length (filter is_digit ds) \<le> max_str_digits
         then Some (if neg then - n else n) else None)"

definition digit_char :: "nat \<Rightarrow> char" where
  "digit_char n = ''0123456789'' ! n"

fun show_nat :: "nat \<Rightarrow> string" where
  "show_nat n = (if n < 10 then [digit_char n] else show_nat (n div 10) @ [digit_char (n mod 10)])"

declare show_nat.simps [simp del]

definition show_int :: "int \<Rightarrow> string" where
  "show_int i = (if i < 0 then CHR ''-'' # show_nat (nat (- i)) else show_nat (nat i))"

text \<open>\<^verbatim>\<open>sep.join(xs)\<close>.\<close>

fun join :: "string \<Rightarrow> string list \<Rightarrow> string" where
  "join sep [] = []"
| "join sep [x] = x"
| "join sep (x # y # ys) = x @ sep @ join sep (y # ys)"

definition hex_digit :: "nat \<Rightarrow> char" where
  "hex_digit n = ''0123456789abcdef'' ! n"

definition printable :: "char \<Rightarrow> bool" where
  "printable c =
     (let n = (of_char c :: nat)
      in (32 \<le> n \<and> n < 127) \<or> (161 \<le> n \<and> n \<noteq> 173))"

definition escape_char :: "char \<Rightarrow> char \<Rightarrow> string" where
  "escape_char q c =
     (if c = q \<or> c = CHR 0x5C then [CHR 0x5C, c]
      else if c = CHR 0x09 then [CHR 0x5C, CHR ''t'']
      else if c = CHR 0x0A then [CHR 0x5C, CHR ''n'']
      else if c = CHR 0x0D then [CHR 0x5C, CHR ''r'']
      else if printable c then [c]
      else [CHR 0x5C, CHR ''x'', hex_digit (of_char c div 16), hex_digit (of_char c mod 16)])"

text \<open>\<^verbatim>\<open>repr(s)\<close> of a string: double quotes when it has a single quote and no double quote.\<close>

definition repr_str :: "string \<Rightarrow> string" where
  "repr_str s =
     (let q = (if CHR 0x27 \<in> set s \<and> CHR 0x22 \<notin> set s then CHR 0x22 else CHR 0x27)
      in q # concat (map (escape_char q) s) @ [q])"

primrec py_repr :: "json \<Rightarrow> string" where
  "py_repr JNull = ''None''"
| "py_repr (JBool b) = (if b then ''True'' else ''False'')"
| "py_repr (JInt i) = show_int i"
| "py_repr (JStr s) = repr_str s"
| "py_repr (JList xs) = ''['' @ join '', '' (map py_repr xs) @ '']''"
| "py_repr (JObj kvs) =
     ''{'' @
     join '', '' (map (\<lambda>kr. repr_str (fst kr) @ '': '' @ snd kr) (map (map_prod id py_repr) kvs)) @
     ''}''"

text \<open>\<^verbatim>\<open>str(v)\<close>, which is how an f-string renders \<^verbatim>\<open>{v}\<close>.\<close>

definition py_str :: "json \<Rightarrow> string" where
  "py_str v = (case v of JStr s \<Rightarrow> s | _ \<Rightarrow> py_repr v)"

text \<open>
  Some messages of the program open with a pictograph. Those characters lie above 255;
  \<open>pict\<close> keeps the code points of the source's literal and stands for them by their
  UTF-8 bytes. No operation of the program looks inside a message.
\<close>

definition utf8 :: "nat \<Rightarrow> string" where
  "utf8 n =
     (if n < 0x80 then [char_of n]
      else if n < 0x800 then [char_of (0xC0 + n div 64), char_of (0x80 + n mod 64)]
      else [char_of (0xE0 + n div 4096), char_of (0x80 + n div 64 mod 64), char_of (0x80 + n mod 64)])"

definition pict :: "nat list \<Rightarrow> string" where
  "pict cps = concat (map utf8 cps)"

definition nl :: char where
  "nl = CHR 0x0A"

definition quote :: char where
  "quote = CHR 0x27"

section \<open>The world outside the program\<close>

record request =
  url :: string
  req_headers :: "(string \<times> string) list"
  params :: "(string \<times> json) list"

text \<open>
  What the program reads of a response: the status code, the body as
  \<^verbatim>\<open>response.json()\<close> decodes it (\<open>Inl\<close> when the body is not JSON, with the text of
  the decoding error), whether \<^verbatim>\<open>response.links\<close> has a \<^verbatim>\<open>next\<close> entry, and the text
  of the \<^verbatim>\<open>HTTPError\<close> that \<^verbatim>\<open>raise_for_status()\<close> raises for an error status.
\<close>

record response =
  status_code :: nat
  json_body :: "string + json"
  next_link :: bool
  http_error :: string

text \<open>
  The terminal, the network and the disk as the program sees them: the lines still to be
  read from standard input, the texts written to standard output (one entry for each
  \<^verbatim>\<open>print\<close> and each prompt of \<^verbatim>\<open>input\<close>), the requests sent so far, the number of
  pauses taken, and the documents stored in files.
\<close>

record world =
  stdin :: "string list"
  stdout :: "string list"
  sent :: "request list"
  pauses :: nat
  files :: "string \<Rightarrow> json option"

text \<open>
  What the program does not decide: the reply to a request, which may depend on the
  requests sent before it (\<open>Inl\<close> when no response arrives, with the text of the
  exception), the local time as \<^verbatim>\<open>time.strftime\<close> formats it, and whether a file can be
  written (\<open>Some\<close> with the text of the exception when it cannot).
\<close>

record env =
  server :: "request list \<Rightarrow> request \<Rightarrow> string + response"
  clock :: string
  write_error :: "string \<Rightarrow> string option"

subsection \<open>Steps that may raise\<close>

type_synonym 'a io = "world \<Rightarrow> (error + 'a) \<times> world"

definition return :: "'a \<Rightarrow> 'a io" where
  "return x w = (Inr x, w)"

definition eval :: "error + 'a \<Rightarrow> 'a io" where
  "eval r w = (r, w)"

definition bind_io :: "'a io \<Rightarrow> ('a \<Rightarrow> 'b io) \<Rightarrow> 'b io" where
  "bind_io m k w = (case m w of (Inl er, w1) \<Rightarrow> (Inl er, w1) | (Inr x, w1) \<Rightarrow> k x w1)"

fun run_all :: "unit io list \<Rightarrow> unit io" where
  "run_all [] = return ()"
| "run_all (m # ms) = bind_io m (\<lambda>_. run_all ms)"

text \<open>\<^verbatim>\<open>try: m except requests.exceptions.RequestException as e: h\<close>.\<close>

definition catch :: "'a io \<Rightarrow> (string \<Rightarrow> 'a io) \<Rightarrow> 'a io" where
  "catch m h w =
     (case m w of
        (Inl (RequestException msg), w1) \<Rightarrow> h msg w1
      | r \<Rightarrow> r)"

definition print :: "string \<Rightarrow> world \<Rightarrow> world" where
  "print s w = w\<lparr>stdout := stdout w @ [s]\<rparr>"

definition say :: "string \<Rightarrow> unit io" where
  "say s w = (Inr (), print s w)"

text \<open>\<^verbatim>\<open>print(f"{pre}{v}{post}")\<close>: nothing is printed when evaluating \<open>v\<close> raises.\<close>

definition tell :: "string \<Rightarrow> error + json \<Rightarrow> string \<Rightarrow> unit io" where
  "tell pre v post = bind_io (eval v) (\<lambda>x. say (pre @ py_str x @ post))"

text \<open>\<^verbatim>\<open>input(prompt)\<close>: at the end of standard input it raises \<^verbatim>\<open>EOFError\<close>.\<close>

definition input :: "string \<Rightarrow> string io" where
  "input prompt w =
     (case stdin w of
        [] \<Rightarrow> (Inl EOFError, print prompt w)
      | l # ls \<Rightarrow> (Inr l, (print prompt w)\<lparr>stdin := ls\<rparr>))"

text \<open>\<^verbatim>\<open>time.sleep(0.1)\<close>.\<close>

definition sleep :: "world \<Rightarrow> world" where
  "sleep w = w\<lparr>pauses := pauses w + 1\<rparr>"

definition requests_get :: "env \<Rightarrow> request \<Rightarrow> response io" where
  "requests_get e rq w =
     (case server e (sent w) rq of
        Inl msg \<Rightarrow> (Inl (RequestException msg), w\<lparr>sent := sent w @ [rq]\<rparr>)
      | Inr r \<Rightarrow> (Inr r, w\<lparr>sent := sent w @ [rq]\<rparr>))"

text \<open>\<^verbatim>\<open>response.raise_for_status()\<close> raises for the status codes 400 to 599.\<close>

definition error_status :: "response \<Rightarrow> bool" where
  "error_status r = (400 \<le> status_code r \<and> status_code r < 600)"

definition raise_for_status :: "response \<Rightarrow> error + unit" where
  "raise_for_status r = (if error_status r then Inl (RequestException (http_error r)) else Inr ())"

text \<open>
  \<^verbatim>\<open>response.json()\<close>: the decoding error of \<^verbatim>\<open>requests\<close> is a \<^verbatim>\<open>RequestException\<close>.
\<close>

definition response_json :: "response \<Rightarrow> error + json" where
  "response_json r = (case json_body r of Inl msg \<Rightarrow> Inl (RequestException msg) | Inr v \<Rightarrow> Inr v)"

text \<open>
  The three statements that open each \<^verbatim>\<open>try\<close> block of a remote call:
  \<^verbatim>\<open>response = requests.get(...)\<close>, \<^verbatim>\<open>response.raise_for_status()\<close>, \<^verbatim>\<open>response.json()\<close>.
\<close>

definition fetch :: "env \<Rightarrow> request \<Rightarrow> (response \<times> json) io" where
  "fetch e rq =
     bind_io (requests_get e rq) (\<lambda>r.
     bind_io (eval (raise_for_status r)) (\<lambda>_.
     bind_io (eval (response_json r)) (\<lambda>v.
     return (r, v))))"

section \<open>The fetcher\<close>

record fetcher =
  base_url :: string
  headers :: "(string \<times> string) list"

text \<open>\<^verbatim>\<open>__init__(token)\<close>: the authorisation header is added for a token that is not empty.\<close>

definition init :: "string option \<Rightarrow> fetcher" where
  "init token =
     \<lparr>base_url = ''https://api.github.com'',
      headers =
        [(''Accept'', ''application/vnd.github.v3+json''), (''User-Agent'', ''GitHub-Repo-Fetcher'')] @
        (case token of
           None \<Rightarrow> []
         | Some t \<Rightarrow> if t = [] then [] else [(''Authorization'', ''token '' @ t)])\<rparr>"

text \<open>\<^verbatim>\<open>d[k] = v\<close> on a dict: an old key keeps its place, a new one goes last.\<close>

fun dict_set :: "(string \<times> 'v) list \<Rightarrow> string \<Rightarrow> 'v \<Rightarrow> (string \<times> 'v) list" where
  "dict_set [] k v = [(k, v)]"
| "dict_set ((k', v') # kvs) k v =
     (if k' = k then (k, v) # kvs else (k', v') # dict_set kvs k v)"

subsection \<open>search_users\<close>

definition search_request :: "fetcher \<Rightarrow> string \<Rightarrow> request" where
  "search_request f query =
     \<lparr>url = base_url f @ ''/search/users'',
      req_headers = headers f,
      params = [(''q'', JStr query), (''per_page'', JInt 10)]\<rparr>"

definition search_users :: "env \<Rightarrow> fetcher \<Rightarrow> string \<Rightarrow> json io" where
  "search_users e f query =
     catch
       (bind_io (fetch e (search_request f query)) (\<lambda>(response, data).
        eval (py_get data ''items'' (JList []))))
       (\<lambda>msg. bind_io (say (''Error searching users: '' @ msg)) (\<lambda>_. return (JList [])))"

subsection \<open>get_user_repos\<close>

definition repos_url :: "fetcher \<Rightarrow> json \<Rightarrow> string" where
  "repos_url f username = base_url f @ ''/users/'' @ py_str username @ ''/repos''"

definition repos_request :: "fetcher \<Rightarrow> json \<Rightarrow> nat \<Rightarrow> request" where
  "repos_request f username page =
     \<lparr>url = repos_url f username,
      req_headers = headers f,
      params = [(''per_page'', JInt 100), (''sort'', JStr ''updated''), (''page'', JInt (int page))]\<rparr>"

text \<open>
  The \<^verbatim>\<open>while True\<close> loop. The loop need not end: a server may announce a next page
  for ever, and then the function has no value (\<open>None\<close>).
\<close>

partial_function (option) get_user_repos_loop ::
  "env \<Rightarrow> fetcher \<Rightarrow> string \<Rightarrow> (string \<times> json) list \<Rightarrow> json list \<Rightarrow> nat \<Rightarrow> world
     \<Rightarrow> ((error + json list) \<times> world) option" where
  "get_user_repos_loop e f u ps repos page w =
     (let ps' = dict_set ps ''page'' (JInt (int page))
      in case fetch e \<lparr>url = u, req_headers = headers f, params = ps'\<rparr> w of
           (Inl (RequestException msg), w1) \<Rightarrow>
             Some (Inr repos, print (''Error fetching repositories: '' @ msg) w1)
         | (Inl er, w1) \<Rightarrow> Some (Inl er, w1)
         | (Inr (response, page_repos), w1) \<Rightarrow>
             if \<not> truthy page_repos then Some (Inr repos, w1)
             else (case py_iter page_repos of
                     Inl er \<Rightarrow> Some (Inl er, w1)
                   | Inr xs \<Rightarrow>
                       if \<not> next_link response then Some (Inr (repos @ xs), w1)
                       else get_user_repos_loop e f u ps' (repos @ xs) (page + 1) (sleep w1)))"

definition get_user_repos ::
  "env \<Rightarrow> fetcher \<Rightarrow> json \<Rightarrow> world \<Rightarrow> ((error + json list) \<times> world) option" where
  "get_user_repos e f username w =
     get_user_repos_loop e f (repos_url f username)
       [(''per_page'', JInt 100), (''sort'', JStr ''updated'')] [] 1 w"

subsection \<open>get_repo_languages\<close>

definition languages_request :: "fetcher \<Rightarrow> json \<Rightarrow> json \<Rightarrow> request" where
  "languages_request f username repo_name =
     \<lparr>url = base_url f @ ''/repos/'' @ py_str username @ ''/'' @ py_str repo_name @ ''/languages'',
      req_headers = headers f,
      params = []\<rparr>"

definition get_repo_languages :: "env \<Rightarrow> fetcher \<Rightarrow> json \<Rightarrow> json \<Rightarrow> string list io" where
  "get_repo_languages e f username repo_name =
     catch
       (bind_io (fetch e (languages_request f username repo_name)) (\<lambda>(response, languages_data).
        eval (py_keys languages_data)))
       (\<lambda>msg. bind_io (say (''Error fetching languages for '' @ py_str repo_name @ '': '' @ msg))
          (\<lambda>_. return []))"

subsection \<open>display_user_selection\<close>

definition show_user :: "nat \<Rightarrow> json \<Rightarrow> unit io" where
  "show_user i user =
     run_all
      [bind_io (eval (py_getitem user ''login'')) (\<lambda>login.
         tell (show_nat i @ ''. '' @ py_str login @ '' - '') (py_get user ''name'' (JStr ''N/A'')) []),
       bind_io (eval (py_get user ''bio'' JNull)) (\<lambda>bio.
         if truthy bio
         then bind_io (eval (py_getitem user ''bio'')) (\<lambda>b.
                tell (''   '' @ pict [0x11F, 0x178, 0x201C] @ '' '') (py_slice b 80) ''...'')
         else return ()),
       bind_io (eval (py_get user ''followers'' (JInt 0))) (\<lambda>followers.
         tell (''   '' @ pict [0x11F, 0x178, 0x2018, 0xA4] @ '' Followers: '' @ py_str followers @
               '' | Public Repos: '')
           (py_get user ''public_repos'' (JInt 0)) []),
       say []]"

fun show_users :: "json list \<Rightarrow> nat \<Rightarrow> unit io" where
  "show_users [] i = return ()"
| "show_users (user # us) i = bind_io (show_user i user) (\<lambda>_. show_users us (Suc i))"

definition select_prompt :: string where
  "select_prompt = ''Select a user (number) or 'q' to quit: ''"

definition not_a_number :: string where
  "not_a_number = ''Please enter a valid number or 'q' to quit''"

definition out_of_range :: "nat \<Rightarrow> string" where
  "out_of_range n = ''Please enter a number between 1 and '' @ show_nat n"

text \<open>
  The \<^verbatim>\<open>while True\<close> loop of the prompt. Each turn reads one line, so the loop ends at
  the latest with the \<^verbatim>\<open>EOFError\<close> at the end of standard input.
\<close>

function selection_loop :: "json \<Rightarrow> world \<Rightarrow> (error + json) \<times> world" where
  "selection_loop users w =
     (case input select_prompt w of
        (Inl er, w1) \<Rightarrow> (Inl er, w1)
      | (Inr line, w1) \<Rightarrow>
          (let choice = strip line
           in if lower choice = ''q'' then (Inr JNull, w1)
              else (case py_int choice of
                      None \<Rightarrow>
                        selection_loop users (print not_a_number w1)
                    | Some choice_num \<Rightarrow>
                        (case py_len users of
                           Inl er \<Rightarrow> (Inl er, w1)
                         | Inr n \<Rightarrow>
                             if 1 \<le> choice_num \<and> choice_num \<le> int n
                             then bind_io (eval (py_index users (nat (choice_num - 1)))) (\<lambda>user.
                                    eval (py_getitem user ''login'')) w1
                             else selection_loop users (print (out_of_range n) w1)))))"
  by pat_completeness auto
termination
  by (relation "measure (\<lambda>(users, w). length (stdin w))")
     (auto simp: input_def print_def split: list.splits)

declare selection_loop.simps [simp del]

definition display_user_selection :: "json \<Rightarrow> json io" where
  "display_user_selection users =
     (if \<not> truthy users then bind_io (say ''No users found!'') (\<lambda>_. return JNull)
      else
        bind_io (say (nl # pict [0x11F, 0x178, 0x201D] @ '' Search Results:'')) (\<lambda>_.
        bind_io (say (replicate 50 CHR ''-'')) (\<lambda>_.
        bind_io (eval (py_iter users)) (\<lambda>us.
        bind_io (show_users us 1) (\<lambda>_.
        selection_loop users)))))"

subsection \<open>display_repos\<close>

text \<open>The body of the \<^verbatim>\<open>for\<close> loop: one repository, numbered \<open>i\<close>.\<close>

definition display_repo :: "env \<Rightarrow> fetcher \<Rightarrow> json \<Rightarrow> nat \<Rightarrow> json \<Rightarrow> unit io" where
  "display_repo e f username i repo =
     run_all
      [tell (nl # show_nat i @ ''. '') (py_getitem repo ''name'') [],
       tell (''   '' @ pict [0x11F, 0x178, 0x201C, 0x2013] @ '' Description: '')
         (py_get repo ''description'' (JStr ''No description'')) [],
       tell (''   '' @ pict [0x11F, 0x178, 0x152, 0x178] @ '' Stars: '')
         (py_get repo ''stargazers_count'' (JInt 0)) [],
       tell (''   '' @ pict [0x11F, 0x178, 0xB4] @ '' Forks: '')
         (py_get repo ''forks_count'' (JInt 0)) [],
       bind_io (eval (py_get repo ''updated_at'' (JStr ''N/A''))) (\<lambda>updated.
         tell (''   '' @ pict [0x11F, 0x178, 0x201C, 0x2026] @ '' Updated: '') (py_slice updated 10) []),
       tell (''   '' @ pict [0x11F, 0x178, 0x201D, 0x2014] @ '' URL: '')
         (py_get repo ''html_url'' (JStr ''N/A'')) [],
       bind_io (eval (py_getitem repo ''name'')) (\<lambda>name.
       bind_io (get_repo_languages e f username name) (\<lambda>languages.
         if languages \<noteq> []
         then say (''   '' @ pict [0x11F, 0x178, 0x2019, 0xBB] @ '' Technologies: '' @ join '', '' languages)
         else say (''   '' @ pict [0x11F, 0x178, 0x2019, 0xBB] @ '' Technologies: Not available''))),
       bind_io (eval (py_get repo ''language'' JNull)) (\<lambda>language.
         if truthy language
         then tell (''   '' @ pict [0x11F, 0x178, 0xAF] @ '' Primary Language: '')
                (py_getitem repo ''language'') []
         else return ()),
       bind_io (eval (py_get repo ''has_issues'' JNull)) (\<lambda>has_issues.
         if truthy has_issues
         then tell (''   '' @ pict [0x11F, 0x178, 0x203A] @ '' Issues: '')
                (py_get repo ''open_issues_count'' (JInt 0)) '' open''
         else return ()),
       bind_io (eval (py_get repo ''license'' JNull)) (\<lambda>license.
         if truthy license
         then bind_io (eval (py_getitem repo ''license'')) (\<lambda>l.
                tell (''   '' @ pict [0x11F, 0x178, 0x201C, 0x153] @ '' License: '')
                  (py_get l ''name'' (JStr ''N/A'')) [])
         else return ()),
       say (replicate 60 CHR ''-'')]"

fun display_repo_list :: "env \<Rightarrow> fetcher \<Rightarrow> json \<Rightarrow> json list \<Rightarrow> nat \<Rightarrow> unit io" where
  "display_repo_list e f username [] i = return ()"
| "display_repo_list e f username (repo # repos) i =
     bind_io (display_repo e f username i repo) (\<lambda>_. display_repo_list e f username repos (Suc i))"

definition display_repos :: "env \<Rightarrow> fetcher \<Rightarrow> json list \<Rightarrow> json \<Rightarrow> unit io" where
  "display_repos e f repos username =
     (if repos = []
      then say (nl # ''No repositories found for user '' @ [quote] @ py_str username @ [quote])
      else
        bind_io (say (nl # pict [0x11F, 0x178, 0x201C, 0x201A] @ '' Repositories for '' @
                      py_str username @ '' ('' @ show_nat (length repos) @ '' found)'')) (\<lambda>_.
        bind_io (say (replicate 80 CHR ''='')) (\<lambda>_.
        display_repo_list e f username repos 1)))"

subsection \<open>export_to_json\<close>

text \<open>The body of the \<^verbatim>\<open>for\<close> loop: the entry of one repository.\<close>

definition export_repo :: "env \<Rightarrow> fetcher \<Rightarrow> json \<Rightarrow> json \<Rightarrow> json io" where
  "export_repo e f username repo =
     bind_io (eval (py_get repo ''name'' JNull)) (\<lambda>name.
     bind_io (eval (py_get repo ''description'' JNull)) (\<lambda>description.
     bind_io (eval (py_get repo ''html_url'' JNull)) (\<lambda>html_url.
     bind_io (eval (py_get repo ''stargazers_count'' JNull)) (\<lambda>stars.
     bind_io (eval (py_get repo ''forks_count'' JNull)) (\<lambda>forks.
     bind_io (eval (py_get repo ''updated_at'' JNull)) (\<lambda>updated_at.
     bind_io (eval (py_get repo ''language'' JNull)) (\<lambda>language.
     bind_io (eval (py_getitem repo ''name'')) (\<lambda>repo_name.
     bind_io (get_repo_languages e f username repo_name) (\<lambda>languages.
     bind_io (eval (py_get repo ''has_issues'' JNull)) (\<lambda>has_issues.
     bind_io (eval (py_get repo ''open_issues_count'' JNull)) (\<lambda>open_issues.
     bind_io (eval (py_get repo ''license'' JNull)) (\<lambda>license.
     bind_io (if truthy license
              then bind_io (eval (py_get repo ''license'' (JObj []))) (\<lambda>l.
                     eval (py_get l ''name'' JNull))
              else return JNull) (\<lambda>license_name.
     return (JObj
       [(''name'', name),
        (''description'', description),
        (''url'', html_url),
        (''stars'', stars),
        (''forks'', forks),
        (''updated_at'', updated_at),
        (''primary_language'', language),
        (''languages'', JList (map JStr languages)),
        (''has_issues'', has_issues),
        (''open_issues'', open_issues),
        (''license'', license_name)]))))))))))))))"

fun export_repos :: "env \<Rightarrow> fetcher \<Rightarrow> json \<Rightarrow> json list \<Rightarrow> json list io" where
  "export_repos e f username [] = return []"
| "export_repos e f username (repo # repos) =
     bind_io (export_repo e f username repo) (\<lambda>repo_data.
     bind_io (export_repos e f username repos) (\<lambda>rest.
     return (repo_data # rest)))"

text \<open>
  \<^verbatim>\<open>with open(filename, 'w') as f: json.dump(export_data, f, ...)\<close> inside
  \<^verbatim>\<open>try ... except Exception\<close>. The file holds the document; its text on disk is the
  affair of \<^verbatim>\<open>json.dump\<close>.
\<close>

definition write_json :: "env \<Rightarrow> string \<Rightarrow> json \<Rightarrow> unit io" where
  "write_json e filename export_data w =
     (case write_error e filename of
        Some msg \<Rightarrow> say (''Error exporting data: '' @ msg) w
      | None \<Rightarrow>
          say (nl # pict [0x11F, 0x178, 0x2019, 0xBE] @ '' Data exported to '' @ filename)
            (w\<lparr>files := (files w)(filename \<mapsto> export_data)\<rparr>))"

definition export_to_json :: "env \<Rightarrow> fetcher \<Rightarrow> json list \<Rightarrow> json \<Rightarrow> string option \<Rightarrow> unit io" where
  "export_to_json e f repos username filename =
     (let filename' =
            (case filename of
               None \<Rightarrow> py_str username @ ''_repositories.json''
             | Some name \<Rightarrow> if name = [] then py_str username @ ''_repositories.json'' else name)
      in bind_io (export_repos e f username repos) (\<lambda>repositories.
           write_json e filename'
             (JObj
               [(''username'', username),
                (''fetched_at'', JStr (clock e)),
                (''total_repositories'', JInt (int (length repos))),
                (''repositories'', JList repositories)])))"

subsection \<open>search_and_display and run\<close>

text \<open>What follows the listing when there are repositories: the display and the export question.\<close>

definition display_and_export :: "env \<Rightarrow> fetcher \<Rightarrow> json list \<Rightarrow> json \<Rightarrow> unit io" where
  "display_and_export e f repos username =
     bind_io (display_repos e f repos username) (\<lambda>_.
     bind_io (input (nl # pict [0x11F, 0x178, 0x2019, 0xBE] @ '' Export to JSON file? (y/n): '')) (\<lambda>answer.
       if lower (strip answer) \<in> set [''y'', ''yes'']
       then bind_io (input ''Enter filename (or press Enter for default): '') (\<lambda>line.
              export_to_json e f repos username (if strip line \<noteq> [] then Some (strip line) else None))
       else return ()))"

definition search_and_display :: "env \<Rightarrow> fetcher \<Rightarrow> world \<Rightarrow> ((error + unit) \<times> world) option" where
  "search_and_display e f w =
     (case input (nl # ''Enter GitHub username or name to search: '') w of
        (Inl er, w1) \<Rightarrow> Some (Inl er, w1)
      | (Inr line, w1) \<Rightarrow>
          (let search_query = strip line
           in if search_query = [] then Some (say ''Please enter a search query.'' w1)
              else
                (case bind_io (say (pict [0x11F, 0x178, 0x201D] @ '' Searching for users...'')) (\<lambda>_.
                      bind_io (search_users e f search_query) display_user_selection) w1 of
                   (Inl er, w2) \<Rightarrow> Some (Inl er, w2)
                 | (Inr username, w2) \<Rightarrow>
                     if \<not> truthy username then Some (Inr (), w2)
                     else
                       (case get_user_repos e f username
                               (print (nl # pict [0x11F, 0x178, 0x201C, 0xA5] @
                                       '' Fetching repositories for '' @ py_str username @ ''...'') w2) of
                          None \<Rightarrow> None
                        | Some (Inl er, w3) \<Rightarrow> Some (Inl er, w3)
                        | Some (Inr repos, w3) \<Rightarrow>
                            if repos \<noteq> [] then Some (display_and_export e f repos username w3)
                            else Some (say (''No repositories found for user '' @ [quote] @
                                            py_str username @ [quote]) w3)))))"

text \<open>The menu loop of \<^verbatim>\<open>run\<close>.\<close>

partial_function (option) run_loop :: "env \<Rightarrow> fetcher \<Rightarrow> world \<Rightarrow> ((error + unit) \<times> world) option" where
  "run_loop e f w =
     (case bind_io (say (nl # ''Options:'')) (\<lambda>_.
           bind_io (say ''1. Search for GitHub user'') (\<lambda>_.
           bind_io (say ''2. Exit'') (\<lambda>_.
           input (nl # ''Enter your choice (1-2): '')))) w of
        (Inl er, w1) \<Rightarrow> Some (Inl er, w1)
      | (Inr line, w1) \<Rightarrow>
          if strip line = ''1''
          then (case search_and_display e f w1 of
                  None \<Rightarrow> None
                | Some (Inl er, w2) \<Rightarrow> Some (Inl er, w2)
                | Some (Inr u, w2) \<Rightarrow> run_loop e f w2)
          else if strip line = ''2''
          then Some (say (''Goodbye! '' @ pict [0x11F, 0x178, 0x2018, 0x2039]) w1)
          else run_loop e f (print ''Invalid choice. Please try again.'' w1))"

definition run :: "env \<Rightarrow> fetcher \<Rightarrow> world \<Rightarrow> ((error + unit) \<times> world) option" where
  "run e f w =
     run_loop e f
       (print (pict [0xE2, 0x153, 0x2026] @ '' Using authenticated requests (5000 requests/hour)'')
       (print (replicate 50 CHR ''='')
       (print (pict [0x11F, 0x178, 0x161, 0x20AC] @ '' GitHub Repository Fetcher'') w)))"

section \<open>Notions used in the statements and proofs\<close>

text \<open>
  A reply that carries a page of a listing: no error status, and a body that is a list
  with at least one element.
\<close>

definition full_page :: "response \<Rightarrow> json list \<Rightarrow> bool" where
  "full_page r xs = (\<not> error_status r \<and> json_body r = Inr (JList xs) \<and> xs \<noteq> [])"

text \<open>
  The text of the \<^verbatim>\<open>RequestException\<close> that a reply makes the three opening statements
  of a remote call raise, if it does: no response, an error status, or a body that is not
  JSON.
\<close>

definition failure :: "string + response \<Rightarrow> string option" where
  "failure reply =
     (case reply of
        Inl msg \<Rightarrow> Some msg
      | Inr r \<Rightarrow>
          if error_status r then Some (http_error r)
          else (case json_body r of Inl msg \<Rightarrow> Some msg | Inr v \<Rightarrow> None))"

text \<open>The parameters that the loop of the listing carries from one turn to the next.\<close>

definition page_params :: "(string \<times> json) list \<Rightarrow> bool" where
  "page_params ps = (\<forall>v. dict_set ps ''page'' v =
       [(''per_page'', JInt 100), (''sort'', JStr ''updated''), (''page'', v)])"

text \<open>What \<^verbatim>\<open>d.get(k)\<close> reads from a document.\<close>

definition field :: "json \<Rightarrow> string \<Rightarrow> json" where
  "field d k = (case d of JObj kvs \<Rightarrow> (case map_of kvs k of None \<Rightarrow> JNull | Some v \<Rightarrow> v) | _ \<Rightarrow> JNull)"

definition keys :: "json \<Rightarrow> string list" where
  "keys d = (case d of JObj kvs \<Rightarrow> map fst kvs | _ \<Rightarrow> [])"

definition is_obj :: "json \<Rightarrow> bool" where
  "is_obj v = (case v of JObj kvs \<Rightarrow> True | _ \<Rightarrow> False)"

text \<open>
  A repository as the listing delivers it: an object with a name whose license, when
  there is one, is an object.
\<close>

definition repository :: "json \<Rightarrow> bool" where
  "repository r =
     (case r of
        JObj kvs \<Rightarrow>
          map_of kvs ''name'' \<noteq> None \<and>
          (truthy (field r ''license'') \<longrightarrow> is_obj (field r ''license''))
      | _ \<Rightarrow> False)"

text \<open>The name of the license of a repository in memory.\<close>

definition license_name :: "json \<Rightarrow> json" where
  "license_name r = (if truthy (field r ''license'') then field (field r ''license'') ''name'' else JNull)"

text \<open>A reply of the language endpoint: a failure, or a body that is an object.\<close>

definition languages_reply :: "string + response \<Rightarrow> bool" where
  "languages_reply reply =
     (failure reply \<noteq> None \<or>
      (case reply of
         Inl msg \<Rightarrow> False
       | Inr r \<Rightarrow> (case json_body r of Inl msg \<Rightarrow> False | Inr v \<Rightarrow> is_obj v)))"

text \<open>The file that the export writes, and the document that it stores there.\<close>

definition default_filename :: "json \<Rightarrow> string" where
  "default_filename username = py_str username @ ''_repositories.json''"

definition target :: "json \<Rightarrow> string option \<Rightarrow> string" where
  "target username filename =
     (case filename of
        None \<Rightarrow> default_filename username
      | Some name \<Rightarrow> if name = [] then default_filename username else name)"

definition entry :: "json \<Rightarrow> string list \<Rightarrow> json" where
  "entry r languages =
     JObj
       [(''name'', field r ''name''),
        (''description'', field r ''description''),
        (''url'', field r ''html_url''),
        (''stars'', field r ''stargazers_count''),
        (''forks'', field r ''forks_count''),
        (''updated_at'', field r ''updated_at''),
        (''primary_language'', field r ''language''),
        (''languages'', JList (map JStr languages)),
        (''has_issues'', field r ''has_issues''),
        (''open_issues'', field r ''open_issues_count''),
        (''license'', license_name r)]"

definition snapshot :: "env \<Rightarrow> json \<Rightarrow> json list \<Rightarrow> string list list \<Rightarrow> json" where
  "snapshot e username repos lss =
     JObj
       [(''username'', username),
        (''fetched_at'', JStr (clock e)),
        (''total_repositories'', JInt (int (length repos))),
        (''repositories'', JList (map (\<lambda>(r, ls). entry r ls) (zip repos lss)))]"

text \<open>
  A user as the search delivers it: an object with a login whose bio, when there is one,
  is a string.
\<close>

definition candidate :: "json \<Rightarrow> bool" where
  "candidate u =
     (case u of
        JObj kvs \<Rightarrow>
          map_of kvs ''login'' \<noteq> None \<and>
          (case field u ''bio'' of JStr s \<Rightarrow> True | v \<Rightarrow> \<not> truthy v)
      | _ \<Rightarrow> False)"

text \<open>
  The world once \<^verbatim>\<open>display_user_selection\<close> has printed the list of users, and the world
  once it has then shown its prompt and read a line, \<open>rest\<close> being the lines still to read.
\<close>

definition listing :: "json list \<Rightarrow> world \<Rightarrow> world" where
  "listing us w =
     snd (bind_io (say (nl # pict [0x11F, 0x178, 0x201D] @ '' Search Results:'')) (\<lambda>_.
          bind_io (say (replicate 50 CHR ''-'')) (\<lambda>_.
          show_users us 1)) w)"

definition prompted :: "json list \<Rightarrow> string list \<Rightarrow> world \<Rightarrow> world" where
  "prompted us rest w = (print select_prompt (listing us w))\<lparr>stdin := rest\<rparr>"

text \<open>A step that only prints: it returns, and reads, sends and writes nothing.\<close>

definition prints_only :: "unit io \<Rightarrow> bool" where
  "prints_only m =
     (\<forall>w. \<exists>w'. m w = (Inr (), w') \<and> stdin w' = stdin w \<and> sent w' = sent w
              \<and> files w' = files w \<and> pauses w' = pauses w)"

section \<open>Sample servers and worlds\<close>

definition quiet_world :: "string list \<Rightarrow> world" where
  "quiet_world lines = \<lparr>stdin = lines, stdout = [], sent = [], pauses = 0, files = (\<lambda>path. None)\<rparr>"

definition ok_response :: "json \<Rightarrow> bool \<Rightarrow> response" where
  "ok_response v has_next =
     \<lparr>status_code = 200, json_body = Inr v, next_link = has_next, http_error = []\<rparr>"

definition error_response :: "nat \<Rightarrow> string \<Rightarrow> response" where
  "error_response code msg =
     \<lparr>status_code = code, json_body = Inr (JObj [(''message'', JStr msg)]), next_link = False,
      http_error = msg\<rparr>"

definition serving :: "(request \<Rightarrow> string + response) \<Rightarrow> env" where
  "serving srv =
     \<lparr>server = (\<lambda>history. srv), clock = ''2024-05-01 10:30:00'', write_error = (\<lambda>path. None)\<rparr>"

definition page_of :: "request \<Rightarrow> json option" where
  "page_of rq = map_of (params rq) ''page''"

definition hello :: json where
  "hello =
     JObj [(''name'', JStr ''hello''), (''description'', JNull), (''stargazers_count'', JInt 3),
           (''forks_count'', JInt 1), (''open_issues_count'', JInt 2),
           (''license'', JObj [(''key'', JStr ''mit''), (''name'', JStr ''MIT License'')])]"

definition world_repo :: json where
  "world_repo = JObj [(''name'', JStr ''world''), (''stargazers_count'', JInt 0), (''license'', JNull)]"

definition two_pages :: "request \<Rightarrow> string + response" where
  "two_pages rq =
     (if page_of rq = Some (JInt 1) then Inr (ok_response (JList [hello]) True)
      else Inr (ok_response (JList [world_repo]) False))"

definition empty_second_page :: "request \<Rightarrow> string + response" where
  "empty_second_page rq =
     (if page_of rq = Some (JInt 1) then Inr (ok_response (JList [hello]) True)
      else Inr (ok_response (JList []) True))"

definition failing_second_page :: "request \<Rightarrow> string + response" where
  "failing_second_page rq =
     (if page_of rq = Some (JInt 1) then Inr (ok_response (JList [hello]) True)
      else Inr (error_response 502 ''502 Server Error''))"

definition unreachable :: "request \<Rightarrow> string + response" where
  "unreachable rq = Inl ''Connection refused''"

definition languages_server :: "request \<Rightarrow> string + response" where
  "languages_server rq =
     (if url rq = ''https://api.github.com/repos/octocat/hello/languages''
      then Inr (ok_response (JObj [(''Go'', JInt 120), (''Shell'', JInt 4)]) False)
      else Inr (error_response 404 ''404 Client Error: Not Found''))"

definition octocat :: json where
  "octocat = JObj [(''login'', JStr ''octocat''), (''id'', JInt 583231)]"

definition octodog :: json where
  "octodog = JObj [(''login'', JStr ''octodog''), (''bio'', JStr ''woof''), (''followers'', JInt 7)]"

definition items_server :: "json \<Rightarrow> request \<Rightarrow> string + response" where
  "items_server body rq = Inr (ok_response body False)"

definition null_description :: json where
  "null_description = JObj [(''name'', JStr ''hello''), (''description'', JNull), (''stargazers_count'', JNull)]"

definition null_updated :: json where
  "null_updated = JObj [(''name'', JStr ''hello''), (''updated_at'', JNull)]"

definition array_server :: "request \<Rightarrow> string + response" where
  "array_server rq = Inr (ok_response (JList []) False)"

section \<open>Remote calls\<close>

lemma fetch_ok:
  assumes "server e (sent w) rq = Inr r" "\<not> error_status r" "json_body r = Inr v"
  shows "fetch e rq w = (Inr (r, v), w\<lparr>sent := sent w @ [rq]\<rparr>)"
  using assms by (simp add: fetch_def bind_io_def requests_get_def eval_def raise_for_status_def
      response_json_def return_def error_status_def)

lemma fetch_failure:
  assumes "failure (server e (sent w) rq) = Some msg"
  shows "fetch e rq w = (Inl (RequestException msg), w\<lparr>sent := sent w @ [rq]\<rparr>)"
  using assms by (auto simp: failure_def fetch_def bind_io_def requests_get_def eval_def raise_for_status_def
      response_json_def return_def error_status_def split: sum.splits if_splits)

lemma page_params_request:
  "page_params ps \<Longrightarrow>
     \<lparr>url = repos_url f u, req_headers = headers f, params = dict_set ps ''page'' (JInt (int p))\<rparr> =
     repos_request f u p"
  by (simp add: page_params_def repos_request_def)

lemma page_params_next: "page_params ps \<Longrightarrow> page_params (dict_set ps ''page'' v)"
  by (simp add: page_params_def)

lemma page_params_init: "page_params [(''per_page'', JInt 100), (''sort'', JStr ''updated'')]"
  by (simp add: page_params_def)

lemma loop_last:
  assumes "page_params ps" "server e (sent w) (repos_request f u p) = Inr r" "\<not> error_status r"
    "json_body r = Inr b" "truthy b" "py_iter b = Inr xs" "\<not> next_link r"
  shows "get_user_repos_loop e f (repos_url f u) ps acc p w =
           Some (Inr (acc @ xs), w\<lparr>sent := sent w @ [repos_request f u p]\<rparr>)"
  by (subst get_user_repos_loop.simps)
     (simp add: Let_def page_params_request[OF assms(1)] fetch_ok[OF assms(2,3,4)] assms(5,6,7))

lemma loop_empty:
  assumes "page_params ps" "server e (sent w) (repos_request f u p) = Inr r" "\<not> error_status r"
    "json_body r = Inr b" "\<not> truthy b"
  shows "get_user_repos_loop e f (repos_url f u) ps acc p w =
           Some (Inr acc, w\<lparr>sent := sent w @ [repos_request f u p]\<rparr>)"
  by (subst get_user_repos_loop.simps)
     (simp add: Let_def page_params_request[OF assms(1)] fetch_ok[OF assms(2,3,4)] assms(5))

lemma loop_failure:
  assumes "page_params ps" "failure (server e (sent w) (repos_request f u p)) = Some msg"
  shows "get_user_repos_loop e f (repos_url f u) ps acc p w =
           Some (Inr acc, print (''Error fetching repositories: '' @ msg)
                   (w\<lparr>sent := sent w @ [repos_request f u p]\<rparr>))"
  by (subst get_user_repos_loop.simps)
     (simp add: Let_def page_params_request[OF assms(1)] fetch_failure[OF assms(2)])

lemma loop_next:
  assumes "page_params ps" "server e (sent w) (repos_request f u p) = Inr r" "full_page r xs" "next_link r"
  shows "get_user_repos_loop e f (repos_url f u) ps acc p w =
           get_user_repos_loop e f (repos_url f u) (dict_set ps ''page'' (JInt (int p))) (acc @ xs) (Suc p)
             (sleep (w\<lparr>sent := sent w @ [repos_request f u p]\<rparr>))"
proof -
  from assms(3) have ok: "\<not> error_status r" and b: "json_body r = Inr (JList xs)" and ne: "xs \<noteq> []"
    by (simp_all add: full_page_def)
  show ?thesis
    by (subst get_user_repos_loop.simps)
       (simp add: Let_def page_params_request[OF assms(1)] fetch_ok[OF assms(2) ok b] ne assms(4))
qed

lemma loop_advance:
  assumes "page_params ps" "p \<le> K"
    and pages: "\<And>k. p \<le> k \<Longrightarrow> k < K \<Longrightarrow>
          server e (sent w @ map (repos_request f u) [p..<k]) (repos_request f u k) = Inr (resp k)
          \<and> full_page (resp k) (page k) \<and> next_link (resp k)"
  shows "\<exists>ps'. page_params ps' \<and>
           get_user_repos_loop e f (repos_url f u) ps acc p w =
           get_user_repos_loop e f (repos_url f u) ps' (acc @ concat (map page [p..<K])) K
             (w\<lparr>sent := sent w @ map (repos_request f u) [p..<K], pauses := pauses w + (K - p)\<rparr>)"
  using assms
proof (induction "K - p" arbitrary: p w acc ps)
  case 0
  then have "p = K" by simp
  with "0.prems"(1) show ?case by (intro exI[of _ ps]) simp
next
  case (Suc n)
  then have lt: "p < K" by simp
  let ?w = "sleep (w\<lparr>sent := sent w @ [repos_request f u p]\<rparr>)"
  let ?ps = "dict_set ps ''page'' (JInt (int p))"
  from Suc.prems(3)[of p] lt have
    s: "server e (sent w) (repos_request f u p) = Inr (resp p)"
    and fp: "full_page (resp p) (page p)" and nx: "next_link (resp p)" by auto
  have step: "get_user_repos_loop e f (repos_url f u) ps acc p w =
              get_user_repos_loop e f (repos_url f u) ?ps (acc @ page p) (Suc p) ?w"
    by (rule loop_next[OF Suc.prems(1) s fp nx])
  have pages': "\<And>k. Suc p \<le> k \<Longrightarrow> k < K \<Longrightarrow>
          server e (sent ?w @ map (repos_request f u) [Suc p..<k]) (repos_request f u k) = Inr (resp k)
          \<and> full_page (resp k) (page k) \<and> next_link (resp k)"
  proof -
    fix k assume k: "Suc p \<le> k" "k < K"
    then have "[p..<k] = p # [Suc p..<k]" by (simp add: upt_conv_Cons)
    with Suc.prems(3)[of k] k
    show "server e (sent ?w @ map (repos_request f u) [Suc p..<k]) (repos_request f u k) = Inr (resp k)
          \<and> full_page (resp k) (page k) \<and> next_link (resp k)"
      by (simp add: sleep_def)
  qed
  have n: "n = K - Suc p" using Suc.hyps(2) by simp
  have le: "Suc p \<le> K" using lt by simp
  from Suc.hyps(1)[OF n page_params_next[OF Suc.prems(1)] le pages', where acc = "acc @ page p"]
  obtain ps' where ps': "page_params ps'"
    and IH: "get_user_repos_loop e f (repos_url f u) ?ps (acc @ page p) (Suc p) ?w =
       get_user_repos_loop e f (repos_url f u) ps' ((acc @ page p) @ concat (map page [Suc p..<K])) K
         (?w\<lparr>sent := sent ?w @ map (repos_request f u) [Suc p..<K], pauses := pauses ?w + (K - Suc p)\<rparr>)"
    by blast
  have up: "[p..<K] = p # [Suc p..<K]" using lt by (simp add: upt_conv_Cons)
  have w_eq: "?w\<lparr>sent := sent ?w @ map (repos_request f u) [Suc p..<K], pauses := pauses ?w + (K - Suc p)\<rparr> =
      w\<lparr>sent := sent w @ map (repos_request f u) [p..<K], pauses := pauses w + (K - p)\<rparr>"
    using lt by (simp add: up sleep_def)
  show ?case
    by (intro exI[of _ ps']) (simp add: ps' step IH w_eq up)
qed

lemma page_of_repos_request [simp]: "page_of (repos_request f u k) = Some (JInt (int k))"
  by (simp add: page_of_def repos_request_def)

section \<open>The paginated listing\<close>

text \<open>
  C1. Let the request for page \<open>k\<close> be the one with \<^verbatim>\<open>per_page\<close> 100, \<^verbatim>\<open>sort\<close>
  \<^verbatim>\<open>updated\<close> and \<^verbatim>\<open>page\<close> \<open>k\<close>, and let the pages before page \<open>N\<close> be non-empty and
  announce a next page. If page \<open>N\<close> is non-empty and announces no next page,
  \<^verbatim>\<open>get_user_repos\<close> returns the pages 1 to \<open>N\<close> concatenated in the order of the
  replies, having sent exactly the requests for the pages 1 to \<open>N\<close>. The empty page is
  looked for first: if the body of page \<open>N\<close> is empty, the listing stops there with the
  pages 1 to \<open>N - 1\<close>, whether or not that reply announces a next page.
\<close>

theorem get_user_repos_pages:
  assumes "1 \<le> N"
    and "\<And>k. 1 \<le> k \<Longrightarrow> k < N \<Longrightarrow>
          server e (sent w @ map (repos_request f u) [1..<k]) (repos_request f u k) = Inr (resp k)
          \<and> full_page (resp k) (page k) \<and> next_link (resp k)"
    and "server e (sent w @ map (repos_request f u) [1..<N]) (repos_request f u N) = Inr (resp N)"
    and "\<not> error_status (resp N)"
  shows "(json_body (resp N) = Inr (JList (page N)) \<and> page N \<noteq> [] \<and> \<not> next_link (resp N) \<longrightarrow>
            get_user_repos e f u w =
              Some (Inr (concat (map page [1..<Suc N])),
                    w\<lparr>sent := sent w @ map (repos_request f u) [1..<Suc N],
                      pauses := pauses w + (N - 1)\<rparr>))
       \<and> (\<forall>b. json_body (resp N) = Inr b \<and> \<not> truthy b \<longrightarrow>
            get_user_repos e f u w =
              Some (Inr (concat (map page [1..<N])),
                    w\<lparr>sent := sent w @ map (repos_request f u) [1..<Suc N],
                      pauses := pauses w + (N - 1)\<rparr>))"
proof -
  let ?w = "w\<lparr>sent := sent w @ map (repos_request f u) [1..<N], pauses := pauses w + (N - 1)\<rparr>"
  from loop_advance[OF page_params_init assms(1), where acc = "[]" and e = e and w = w and f = f
      and u = u and resp = resp and page = page] assms(2)
  obtain ps' where ps': "page_params ps'"
    and adv: "get_user_repos e f u w =
       get_user_repos_loop e f (repos_url f u) ps' (concat (map page [1..<N])) N ?w"
    by (auto simp: get_user_repos_def)
  have s: "server e (sent ?w) (repos_request f u N) = Inr (resp N)"
    using assms(3) by simp
  have fin: "?w\<lparr>sent := sent ?w @ [repos_request f u N]\<rparr> =
       w\<lparr>sent := sent w @ map (repos_request f u) [1..<Suc N], pauses := pauses w + (N - 1)\<rparr>"
    using assms(1) by simp
  have cc: "concat (map page [1..<Suc N]) = concat (map page [1..<N]) @ page N"
    using assms(1) by simp
  show ?thesis
  proof (intro conjI impI allI)
    assume a: "json_body (resp N) = Inr (JList (page N)) \<and> page N \<noteq> [] \<and> \<not> next_link (resp N)"
    then have L: "get_user_repos_loop e f (repos_url f u) ps' (concat (map page [1..<N])) N ?w =
        Some (Inr (concat (map page [1..<N]) @ page N), ?w\<lparr>sent := sent ?w @ [repos_request f u N]\<rparr>)"
      by (intro loop_last[OF ps' s assms(4)]) auto
    show "get_user_repos e f u w =
              Some (Inr (concat (map page [1..<Suc N])),
                    w\<lparr>sent := sent w @ map (repos_request f u) [1..<Suc N],
                      pauses := pauses w + (N - 1)\<rparr>)"
      by (simp only: adv L fin cc)
  next
    fix b assume a: "json_body (resp N) = Inr b \<and> \<not> truthy b"
    then have L: "get_user_repos_loop e f (repos_url f u) ps' (concat (map page [1..<N])) N ?w =
        Some (Inr (concat (map page [1..<N])), ?w\<lparr>sent := sent ?w @ [repos_request f u N]\<rparr>)"
      by (intro loop_empty[OF ps' s assms(4)]) auto
    show "get_user_repos e f u w =
              Some (Inr (concat (map page [1..<N])),
                    w\<lparr>sent := sent w @ map (repos_request f u) [1..<Suc N],
                      pauses := pauses w + (N - 1)\<rparr>)"
      by (simp only: adv L fin)
  qed
qed

theorem get_user_repos_pages_witness:
  "get_user_repos (serving two_pages) (init None) (JStr ''octocat'') (quiet_world []) =
     Some (Inr [hello, world_repo],
           (quiet_world [])\<lparr>sent := map (repos_request (init None) (JStr ''octocat'')) [1, 2], pauses := 1\<rparr>)
   \<and> get_user_repos (serving empty_second_page) (init None) (JStr ''octocat'') (quiet_world []) =
     Some (Inr [hello],
           (quiet_world [])\<lparr>sent := map (repos_request (init None) (JStr ''octocat'')) [1, 2], pauses := 1\<rparr>)"
proof -
  let ?f = "init None" and ?u = "JStr ''octocat''" and ?w = "quiet_world []"
  let ?resp1 = "\<lambda>k::nat. if k = 1 then ok_response (JList [hello]) True else ok_response (JList [world_repo]) False"
  let ?resp2 = "\<lambda>k::nat. if k = 1 then ok_response (JList [hello]) True else ok_response (JList []) True"
  let ?page = "\<lambda>k::nat. if k = 1 then [hello] else [world_repo]"
  have one: "\<And>k::nat. 1 \<le> k \<Longrightarrow> k < 2 \<Longrightarrow> k = 1" by arith
  have A: "get_user_repos (serving two_pages) ?f ?u ?w =
     Some (Inr (concat (map ?page [1..<Suc 2])),
           ?w\<lparr>sent := sent ?w @ map (repos_request ?f ?u) [1..<Suc 2], pauses := pauses ?w + (2 - 1)\<rparr>)"
    using get_user_repos_pages[of 2 "serving two_pages" ?w ?f ?u ?resp1 ?page]
    by (auto simp: serving_def two_pages_def ok_response_def full_page_def error_status_def dest: one)
  have B: "get_user_repos (serving empty_second_page) ?f ?u ?w =
     Some (Inr (concat (map ?page [1..<2])),
           ?w\<lparr>sent := sent ?w @ map (repos_request ?f ?u) [1..<Suc 2], pauses := pauses ?w + (2 - 1)\<rparr>)"
    using get_user_repos_pages[of 2 "serving empty_second_page" ?w ?f ?u ?resp2 ?page]
    by (auto simp: serving_def empty_second_page_def ok_response_def full_page_def error_status_def dest: one)
  show ?thesis
    using A B by (simp add: upt_rec quiet_world_def numeral_2_eq_2)
qed

text \<open>
  C2. For every \<open>K \<ge> 1\<close>: if the pages 1 to \<open>K - 1\<close> arrived (non-empty, each announcing
  a next page) and the request for page \<open>K\<close> fails (no response, an error status, or a
  body that is not JSON), \<^verbatim>\<open>get_user_repos\<close> returns the pages 1 to \<open>K - 1\<close>
  concatenated, the empty list for \<open>K = 1\<close>. It returns: the failure is printed and no
  exception reaches the caller.
\<close>

theorem get_user_repos_failure:
  assumes "1 \<le> K"
    and "\<And>k. 1 \<le> k \<Longrightarrow> k < K \<Longrightarrow>
          server e (sent w @ map (repos_request f u) [1..<k]) (repos_request f u k) = Inr (resp k)
          \<and> full_page (resp k) (page k) \<and> next_link (resp k)"
    and "failure (server e (sent w @ map (repos_request f u) [1..<K]) (repos_request f u K)) = Some msg"
  shows "get_user_repos e f u w =
           Some (Inr (concat (map page [1..<K])),
                 print (''Error fetching repositories: '' @ msg)
                   (w\<lparr>sent := sent w @ map (repos_request f u) [1..<Suc K],
                     pauses := pauses w + (K - 1)\<rparr>))"
proof -
  let ?w = "w\<lparr>sent := sent w @ map (repos_request f u) [1..<K], pauses := pauses w + (K - 1)\<rparr>"
  from loop_advance[OF page_params_init assms(1), where acc = "[]" and e = e and w = w and f = f
      and u = u and resp = resp and page = page] assms(2)
  obtain ps' where ps': "page_params ps'"
    and adv: "get_user_repos e f u w =
       get_user_repos_loop e f (repos_url f u) ps' (concat (map page [1..<K])) K ?w"
    by (auto simp: get_user_repos_def)
  have s: "failure (server e (sent ?w) (repos_request f u K)) = Some msg"
    using assms(3) by simp
  have fin: "?w\<lparr>sent := sent ?w @ [repos_request f u K]\<rparr> =
       w\<lparr>sent := sent w @ map (repos_request f u) [1..<Suc K], pauses := pauses w + (K - 1)\<rparr>"
    using assms(1) by simp
  show ?thesis
    by (simp only: adv loop_failure[OF ps' s] fin)
qed

theorem get_user_repos_failure_witness:
  "get_user_repos (serving failing_second_page) (init None) (JStr ''octocat'') (quiet_world []) =
     Some (Inr [hello],
           (quiet_world [])\<lparr>stdout := [''Error fetching repositories: 502 Server Error''],
              sent := map (repos_request (init None) (JStr ''octocat'')) [1, 2], pauses := 1\<rparr>)
   \<and> get_user_repos (serving unreachable) (init None) (JStr ''octocat'') (quiet_world []) =
     Some (Inr [],
           (quiet_world [])\<lparr>stdout := [''Error fetching repositories: Connection refused''],
              sent := [repos_request (init None) (JStr ''octocat'') 1]\<rparr>)"
proof -
  let ?f = "init None" and ?u = "JStr ''octocat''" and ?w = "quiet_world []"
  let ?resp = "\<lambda>k::nat. ok_response (JList [hello]) True"
  let ?page = "\<lambda>k::nat. [hello]"
  have one: "\<And>k::nat. 1 \<le> k \<Longrightarrow> k < 2 \<Longrightarrow> k = 1" by arith
  have A: "get_user_repos (serving failing_second_page) ?f ?u ?w =
     Some (Inr (concat (map ?page [1..<2])),
           print (''Error fetching repositories: '' @ ''502 Server Error'')
            (?w\<lparr>sent := sent ?w @ map (repos_request ?f ?u) [1..<Suc 2], pauses := pauses ?w + (2 - 1)\<rparr>))"
    using get_user_repos_failure[of 2 "serving failing_second_page" ?w ?f ?u ?resp ?page "''502 Server Error''"]
    by (auto simp: serving_def failing_second_page_def ok_response_def error_response_def full_page_def
          error_status_def failure_def dest: one)
  have B: "get_user_repos (serving unreachable) ?f ?u ?w =
     Some (Inr (concat (map ?page [1..<1])),
           print (''Error fetching repositories: '' @ ''Connection refused'')
            (?w\<lparr>sent := sent ?w @ map (repos_request ?f ?u) [1..<Suc 1], pauses := pauses ?w + (1 - 1)\<rparr>))"
    using get_user_repos_failure[of 1 "serving unreachable" ?w ?f ?u ?resp ?page "''Connection refused''"]
    by (simp add: serving_def unreachable_def failure_def)
  show ?thesis
    using A B by (simp add: upt_rec quiet_world_def print_def numeral_2_eq_2)
qed

section \<open>The export\<close>

lemma py_get_obj: "py_get (JObj kvs) k JNull = Inr (field (JObj kvs) k)"
  by (simp add: field_def split: option.splits)

lemma py_getitem_obj: "map_of kvs k = Some v \<Longrightarrow> py_getitem (JObj kvs) k = Inr v"
  by simp

lemma get_repo_languages_ok:
  assumes "server e (sent w) (languages_request f u n) = Inr r" "\<not> error_status r" "json_body r = Inr (JObj kvs)"
  shows "get_repo_languages e f u n w = (Inr (map fst kvs), w\<lparr>sent := sent w @ [languages_request f u n]\<rparr>)"
  by (simp add: get_repo_languages_def catch_def bind_io_def fetch_ok[OF assms] eval_def)

lemma get_repo_languages_failure:
  assumes "failure (server e (sent w) (languages_request f u n)) = Some msg"
  shows "get_repo_languages e f u n w =
           (Inr [], print (''Error fetching languages for '' @ py_str n @ '': '' @ msg)
                      (w\<lparr>sent := sent w @ [languages_request f u n]\<rparr>))"
  by (simp add: get_repo_languages_def catch_def bind_io_def fetch_failure[OF assms] say_def return_def)

lemma get_repo_languages_returns:
  assumes "languages_reply (server e (sent w) (languages_request f u n))"
  shows "\<exists>ls w'. get_repo_languages e f u n w = (Inr ls, w') \<and> files w' = files w \<and> stdin w' = stdin w
           \<and> sent w' = sent w @ [languages_request f u n]"
proof (cases "failure (server e (sent w) (languages_request f u n))")
  case (Some msg)
  show ?thesis by (simp add: get_repo_languages_failure[OF Some] print_def)
next
  case None
  with assms obtain r kvs where "server e (sent w) (languages_request f u n) = Inr r"
     "\<not> error_status r" "json_body r = Inr (JObj kvs)"
    by (auto simp: languages_reply_def failure_def is_obj_def split: sum.splits if_splits json.splits)
  from get_repo_languages_ok[OF this] show ?thesis by simp
qed

lemma bind_eval_Inr: "bind_io (eval (Inr x)) k = k x"
  by (rule ext) (simp add: bind_io_def eval_def)

lemma bind_return: "bind_io (return x) k = k x"
  by (rule ext) (simp add: bind_io_def return_def)

lemma field_obj_license:
  assumes "field (JObj kvs) ''license'' = JObj lkv"
  shows "py_get (JObj kvs) ''license'' (JObj []) = Inr (JObj lkv)"
  using assms by (simp add: field_def split: option.splits)

lemma export_license:
  assumes "truthy (field (JObj kvs) ''license'') \<longrightarrow> is_obj (field (JObj kvs) ''license'')"
  shows "(if truthy (field (JObj kvs) ''license'')
          then bind_io (eval (py_get (JObj kvs) ''license'' (JObj []))) (\<lambda>l. eval (py_get l ''name'' JNull))
          else return JNull) = return (license_name (JObj kvs))"
proof (cases "truthy (field (JObj kvs) ''license'')")
  case False
  then show ?thesis by (simp add: license_name_def)
next
  case True
  with assms obtain lkv where lf: "field (JObj kvs) ''license'' = JObj lkv"
    by (auto simp: is_obj_def split: json.splits)
  have "bind_io (eval (py_get (JObj kvs) ''license'' (JObj []))) (\<lambda>l. eval (py_get l ''name'' JNull)) =
        eval (Inr (field (JObj lkv) ''name''))"
    by (simp only: field_obj_license[OF lf] bind_eval_Inr py_get_obj)
  also have "\<dots> = return (license_name (JObj kvs))"
    using True by (simp add: license_name_def lf eval_def return_def fun_eq_iff)
  finally show ?thesis using True by simp
qed

lemma export_repo_entry:
  assumes "repository r" "get_repo_languages e f u (field r ''name'') w = (Inr ls, w')"
  shows "export_repo e f u r w = (Inr (entry r ls), w')"
proof -
  from assms(1) obtain kvs nm where r: "r = JObj kvs" and nm: "map_of kvs ''name'' = Some nm"
    and lic: "truthy (field (JObj kvs) ''license'') \<longrightarrow> is_obj (field (JObj kvs) ''license'')"
    by (auto simp: repository_def split: json.splits)
  have f: "field (JObj kvs) ''name'' = nm" by (simp add: field_def nm)
  from assms(2) have g: "get_repo_languages e f u nm w = (Inr ls, w')" by (simp add: r f)
  have "export_repo e f u (JObj kvs) =
        bind_io (get_repo_languages e f u nm) (\<lambda>languages. return (entry (JObj kvs) languages))"
    unfolding export_repo_def
    by (simp only: py_get_obj py_getitem_obj[OF nm] bind_eval_Inr export_license[OF lic] bind_return
          entry_def f)
  then show ?thesis
    by (simp add: r bind_io_def g return_def)
qed

lemma export_repos_entries:
  assumes "\<forall>r\<in>set repos. repository r"
    and "\<forall>h. \<forall>r\<in>set repos. languages_reply (server e h (languages_request f u (field r ''name'')))"
  shows "\<exists>lss w'. export_repos e f u repos w = (Inr (map (\<lambda>(r, ls). entry r ls) (zip repos lss)), w')
           \<and> length lss = length repos \<and> files w' = files w \<and> stdin w' = stdin w
           \<and> (\<forall>i<length repos. \<exists>w0 w1.
                 get_repo_languages e f u (field (repos ! i) ''name'') w0 = (Inr (lss ! i), w1))"
  using assms
proof (induction repos arbitrary: w)
  case Nil
  show ?case by (simp add: return_def)
next
  case (Cons r rs)
  from Cons.prems have wf: "repository r" and wfs: "\<forall>r\<in>set rs. repository r"
    and lr: "languages_reply (server e (sent w) (languages_request f u (field r ''name'')))"
    and lrs: "\<forall>h. \<forall>r\<in>set rs. languages_reply (server e h (languages_request f u (field r ''name'')))"
    by simp_all
  from get_repo_languages_returns[OF lr] obtain ls w1 where
    g: "get_repo_languages e f u (field r ''name'') w = (Inr ls, w1)"
    and fw1: "files w1 = files w" and sw1: "stdin w1 = stdin w" by blast
  have e1: "export_repo e f u r w = (Inr (entry r ls), w1)"
    by (rule export_repo_entry[OF wf g])
  from Cons.IH[OF wfs lrs, of w1] obtain lss w2 where
    e2: "export_repos e f u rs w1 = (Inr (map (\<lambda>(r, ls). entry r ls) (zip rs lss)), w2)"
    and len: "length lss = length rs" and fw2: "files w2 = files w1" and sw2: "stdin w2 = stdin w1"
    and each: "\<forall>i<length rs. \<exists>w0 w1.
                 get_repo_languages e f u (field (rs ! i) ''name'') w0 = (Inr (lss ! i), w1)"
    by blast
  have res: "export_repos e f u (r # rs) w =
      (Inr (map (\<lambda>(r, ls). entry r ls) (zip (r # rs) (ls # lss))), w2)"
    by (simp add: bind_io_def e1 e2 return_def)
  have each': "\<forall>i<length (r # rs). \<exists>w0 w1.
      get_repo_languages e f u (field ((r # rs) ! i) ''name'') w0 = (Inr ((ls # lss) ! i), w1)"
  proof (intro allI impI)
    fix i assume "i < length (r # rs)"
    then show "\<exists>w0 w1. get_repo_languages e f u (field ((r # rs) ! i) ''name'') w0 = (Inr ((ls # lss) ! i), w1)"
      using g each by (cases i) auto
  qed
  show ?case
    apply (rule exI[of _ "ls # lss"])
    apply (rule exI[of _ w2])
    using res len fw1 fw2 sw1 sw2 each' apply simp
    done
qed

lemma export_to_json_snapshot:
  assumes "\<forall>r\<in>set repos. repository r"
    and "\<forall>h. \<forall>r\<in>set repos. languages_reply (server e h (languages_request f u (field r ''name'')))"
    and "write_error e (target u filename) = None"
  shows "\<exists>lss w'. export_to_json e f repos u filename w = (Inr (), w')
           \<and> files w' = (files w)(target u filename \<mapsto> snapshot e u repos lss)
           \<and> length lss = length repos
           \<and> (\<forall>i<length repos. \<exists>w0 w1.
                 get_repo_languages e f u (field (repos ! i) ''name'') w0 = (Inr (lss ! i), w1))"
proof -
  from export_repos_entries[OF assms(1,2), of w] obtain lss w1 where
    e: "export_repos e f u repos w = (Inr (map (\<lambda>(r, ls). entry r ls) (zip repos lss)), w1)"
    and len: "length lss = length repos" and fw: "files w1 = files w"
    and each: "\<forall>i<length repos. \<exists>w0 w1.
                 get_repo_languages e f u (field (repos ! i) ''name'') w0 = (Inr (lss ! i), w1)"
    by blast
  have t: "(case filename of None \<Rightarrow> py_str u @ ''_repositories.json''
            | Some name \<Rightarrow> if name = [] then py_str u @ ''_repositories.json'' else name) = target u filename"
    by (simp add: target_def default_filename_def split: option.splits)
  let ?w2 = "print (nl # pict [0x11F, 0x178, 0x2019, 0xBE] @ '' Data exported to '' @ target u filename)
            (w1\<lparr>files := (files w1)(target u filename \<mapsto> snapshot e u repos lss)\<rparr>)"
  have r: "export_to_json e f repos u filename w = (Inr (), ?w2)"
    unfolding export_to_json_def Let_def t
    by (simp add: bind_io_def e write_json_def assms(3) say_def snapshot_def)
  have fs: "files ?w2 = (files w)(target u filename \<mapsto> snapshot e u repos lss)"
    by (simp add: print_def fw)
  show ?thesis
    using r fs len each by blast
qed

lemma map_entries:
  assumes "length lss = length repos" "\<And>r ls. h (entry r ls) = g r"
  shows "map h (map (\<lambda>(r, ls). entry r ls) (zip repos lss)) = map g repos"
  using assms(1)
proof (induction repos arbitrary: lss)
  case Nil
  then show ?case by simp
next
  case (Cons r rs)
  then obtain ls lss' where "lss = ls # lss'" by (cases lss) auto
  with Cons show ?case by (simp add: assms(2))
qed

lemma field_snapshot_repositories:
  "field (snapshot e u repos lss) ''repositories'' = JList (map (\<lambda>(r, ls). entry r ls) (zip repos lss))"
  by (simp add: snapshot_def field_def)

lemma sample_repositories: "\<forall>r\<in>set [hello, world_repo]. repository r"
  by (simp add: hello_def world_repo_def repository_def field_def is_obj_def)

lemma sample_languages:
  "\<forall>h. \<forall>r\<in>set [hello, world_repo].
     languages_reply (server (serving languages_server) h
       (languages_request (init None) (JStr ''octocat'') (field r ''name'')))"
  by (simp add: hello_def world_repo_def field_def serving_def languages_server_def
        languages_request_def init_def py_str_def languages_reply_def failure_def error_status_def
        ok_response_def error_response_def is_obj_def)

text \<open>
  C3. Let the repositories be as the listing delivers them (objects with a name, whose
  license is an object when it is there), let the language endpoint answer with an object
  or fail, and let the file be writable. For every such repository list, every username
  and no filename (\<^verbatim>\<open>None\<close> or the empty string), \<^verbatim>\<open>export_to_json\<close> stores at
  \<^verbatim>\<open><username>_repositories.json\<close> a document whose top level has exactly the fields
  username, fetched_at, total_repositories and repositories, where total_repositories is
  the length of the list and every entry of repositories has exactly the fields name,
  description, url, stars, forks, updated_at, primary_language, languages, has_issues,
  open_issues and license.
\<close>

theorem export_to_json_document:
  assumes "\<forall>r\<in>set repos. repository r"
    and "\<forall>h. \<forall>r\<in>set repos.
           languages_reply (server e h (languages_request f username (field r ''name'')))"
    and "filename = None \<or> filename = Some []"
    and "write_error e (py_str username @ ''_repositories.json'') = None"
  shows "\<exists>w' doc rs.
           export_to_json e f repos username filename w = (Inr (), w')
         \<and> files w' (py_str username @ ''_repositories.json'') = Some doc
         \<and> keys doc = [''username'', ''fetched_at'', ''total_repositories'', ''repositories'']
         \<and> field doc ''total_repositories'' = JInt (int (length repos))
         \<and> field doc ''repositories'' = JList rs
         \<and> length rs = length repos
         \<and> (\<forall>d\<in>set rs. keys d =
               [''name'', ''description'', ''url'', ''stars'', ''forks'', ''updated_at'',
                ''primary_language'', ''languages'', ''has_issues'', ''open_issues'', ''license''])"
proof -
  from assms(3) have t: "target username filename = py_str username @ ''_repositories.json''"
    by (auto simp: target_def default_filename_def)
  from export_to_json_snapshot[OF assms(1,2), of filename w] assms(4) t
  obtain lss w' where r: "export_to_json e f repos username filename w = (Inr (), w')"
    and fs: "files w' = (files w)(py_str username @ ''_repositories.json'' \<mapsto> snapshot e username repos lss)"
    and len: "length lss = length repos"
    by auto
  let ?rs = "map (\<lambda>(r, ls). entry r ls) (zip repos lss)"
  have k: "keys (snapshot e username repos lss) =
      [''username'', ''fetched_at'', ''total_repositories'', ''repositories'']"
    by (simp add: snapshot_def keys_def)
  have n: "field (snapshot e username repos lss) ''total_repositories'' = JInt (int (length repos))"
    by (simp add: snapshot_def field_def)
  have ks: "\<forall>d\<in>set ?rs. keys d =
               [''name'', ''description'', ''url'', ''stars'', ''forks'', ''updated_at'',
                ''primary_language'', ''languages'', ''has_issues'', ''open_issues'', ''license'']"
    by (auto simp: entry_def keys_def)
  have l: "length ?rs = length repos" by (simp add: len)
  show ?thesis
    apply (rule exI[of _ w'])
    apply (rule exI[of _ "snapshot e username repos lss"])
    apply (rule exI[of _ ?rs])
    apply (intro conjI)
          apply (rule r)
         apply (simp add: fs)
        apply (rule k)
       apply (rule n)
      apply (rule field_snapshot_repositories)
     apply (rule l)
    apply (rule ks)
    done
qed

theorem export_to_json_document_witness:
  "\<exists>w' doc rs.
     export_to_json (serving languages_server) (init None) [hello, world_repo] (JStr ''octocat'') None
       (quiet_world []) = (Inr (), w')
   \<and> files w' ''octocat_repositories.json'' = Some doc
   \<and> keys doc = [''username'', ''fetched_at'', ''total_repositories'', ''repositories'']
   \<and> field doc ''total_repositories'' = JInt 2
   \<and> field doc ''repositories'' = JList rs
   \<and> length rs = 2
   \<and> list_all (\<lambda>d. keys d =
         [''name'', ''description'', ''url'', ''stars'', ''forks'', ''updated_at'',
          ''primary_language'', ''languages'', ''has_issues'', ''open_issues'', ''license'']) rs"
  using export_to_json_document[OF sample_repositories sample_languages, of None "quiet_world []"]
  by (simp add: py_str_def serving_def list_all_iff numeral_2_eq_2)

text \<open>
  C5. For every repository list and username (repositories, language endpoint and file as
  in C3, any filename): reading back the document that \<^verbatim>\<open>export_to_json\<close> stored gives,
  position by position, the names of the repositories passed in (hence the same set of
  names), their star, fork and open-issue counts, and their license names.
\<close>

theorem export_round_trip:
  assumes "\<forall>r\<in>set repos. repository r"
    and "\<forall>h. \<forall>r\<in>set repos.
           languages_reply (server e h (languages_request f username (field r ''name'')))"
    and "write_error e (target username filename) = None"
  shows "\<exists>w' doc rs.
           export_to_json e f repos username filename w = (Inr (), w')
         \<and> files w' (target username filename) = Some doc
         \<and> field doc ''repositories'' = JList rs
         \<and> map (\<lambda>d. field d ''name'') rs = map (\<lambda>r. field r ''name'') repos
         \<and> map (\<lambda>d. field d ''stars'') rs = map (\<lambda>r. field r ''stargazers_count'') repos
         \<and> map (\<lambda>d. field d ''forks'') rs = map (\<lambda>r. field r ''forks_count'') repos
         \<and> map (\<lambda>d. field d ''open_issues'') rs = map (\<lambda>r. field r ''open_issues_count'') repos
         \<and> map (\<lambda>d. field d ''license'') rs = map license_name repos"
proof -
  from export_to_json_snapshot[OF assms(1,2,3), of w]
  obtain lss w' where r: "export_to_json e f repos username filename w = (Inr (), w')"
    and fs: "files w' = (files w)(target username filename \<mapsto> snapshot e username repos lss)"
    and len: "length lss = length repos"
    by auto
  let ?rs = "map (\<lambda>(r, ls). entry r ls) (zip repos lss)"
  show ?thesis
    apply (rule exI[of _ w'])
    apply (rule exI[of _ "snapshot e username repos lss"])
    apply (rule exI[of _ ?rs])
    apply (intro conjI)
           apply (rule r)
          apply (simp add: fs)
         apply (rule field_snapshot_repositories)
        apply (rule map_entries[OF len], simp add: entry_def field_def)
       apply (rule map_entries[OF len], simp add: entry_def field_def)
      apply (rule map_entries[OF len], simp add: entry_def field_def)
     apply (rule map_entries[OF len], simp add: entry_def field_def)
    apply (rule map_entries[OF len], simp add: entry_def field_def)
    done
qed

theorem export_round_trip_witness:
  "\<exists>w' doc rs.
     export_to_json (serving languages_server) (init None) [hello, world_repo] (JStr ''octocat'')
       (Some ''out.json'') (quiet_world []) = (Inr (), w')
   \<and> files w' ''out.json'' = Some doc
   \<and> field doc ''repositories'' = JList rs
   \<and> map (\<lambda>d. field d ''name'') rs = [JStr ''hello'', JStr ''world'']
   \<and> map (\<lambda>d. field d ''stars'') rs = [JInt 3, JInt 0]
   \<and> map (\<lambda>d. field d ''forks'') rs = [JInt 1, JNull]
   \<and> map (\<lambda>d. field d ''open_issues'') rs = [JInt 2, JNull]
   \<and> map (\<lambda>d. field d ''license'') rs = [JStr ''MIT License'', JNull]"
  using export_round_trip[OF sample_repositories sample_languages, of "Some ''out.json''" "quiet_world []"]
  by (simp add: target_def serving_def hello_def world_repo_def field_def license_name_def)

text \<open>
  C4. For every username and repository name: when the reply carries a JSON mapping,
  \<^verbatim>\<open>get_repo_languages\<close> returns exactly its keys, in order, without the byte counts;
  when the request fails it returns the empty list. In particular, when the language
  endpoint answers \<^verbatim>\<open>{"Go": a, "Shell": b}\<close> for the repository at position \<open>i\<close>,
  whatever the counts \<open>a\<close> and \<open>b\<close>, the entry that \<^verbatim>\<open>export_to_json\<close> writes for it
  has \<^verbatim>\<open>"languages": ["Go", "Shell"]\<close>.
\<close>

theorem get_repo_languages_keys:
  "(\<forall>r kvs. server e (sent w) (languages_request f u n) = Inr r \<and> \<not> error_status r
        \<and> json_body r = Inr (JObj kvs)
      \<longrightarrow> get_repo_languages e f u n w =
            (Inr (map fst kvs), w\<lparr>sent := sent w @ [languages_request f u n]\<rparr>))
   \<and> (\<forall>msg. failure (server e (sent w) (languages_request f u n)) = Some msg
      \<longrightarrow> get_repo_languages e f u n w =
            (Inr [], print (''Error fetching languages for '' @ py_str n @ '': '' @ msg)
                       (w\<lparr>sent := sent w @ [languages_request f u n]\<rparr>)))
   \<and> ((\<forall>r\<in>set repos. repository r)
        \<and> (\<forall>h. \<forall>r\<in>set repos. languages_reply (server e h (languages_request f u (field r ''name''))))
        \<and> write_error e (target u filename) = None
        \<and> i < length repos
        \<and> (\<forall>h. \<exists>r. server e h (languages_request f u (field (repos ! i) ''name'')) = Inr r
               \<and> \<not> error_status r
               \<and> json_body r = Inr (JObj [(''Go'', JInt a), (''Shell'', JInt b)]))
      \<longrightarrow> (\<exists>w' doc rs.
             export_to_json e f repos u filename w = (Inr (), w')
           \<and> files w' (target u filename) = Some doc
           \<and> field doc ''repositories'' = JList rs
           \<and> field (rs ! i) ''languages'' = JList [JStr ''Go'', JStr ''Shell'']))"
proof (intro conjI allI impI)
  fix r kvs
  assume "server e (sent w) (languages_request f u n) = Inr r \<and> \<not> error_status r
        \<and> json_body r = Inr (JObj kvs)"
  then show "get_repo_languages e f u n w =
            (Inr (map fst kvs), w\<lparr>sent := sent w @ [languages_request f u n]\<rparr>)"
    by (intro get_repo_languages_ok) auto
next
  fix msg
  assume "failure (server e (sent w) (languages_request f u n)) = Some msg"
  then show "get_repo_languages e f u n w =
            (Inr [], print (''Error fetching languages for '' @ py_str n @ '': '' @ msg)
                       (w\<lparr>sent := sent w @ [languages_request f u n]\<rparr>))"
    by (rule get_repo_languages_failure)
next
  assume a: "(\<forall>r\<in>set repos. repository r)
        \<and> (\<forall>h. \<forall>r\<in>set repos. languages_reply (server e h (languages_request f u (field r ''name''))))
        \<and> write_error e (target u filename) = None
        \<and> i < length repos
        \<and> (\<forall>h. \<exists>r. server e h (languages_request f u (field (repos ! i) ''name'')) = Inr r
               \<and> \<not> error_status r
               \<and> json_body r = Inr (JObj [(''Go'', JInt a), (''Shell'', JInt b)]))"
  then have wf: "\<forall>r\<in>set repos. repository r"
    and lr: "\<forall>h. \<forall>r\<in>set repos. languages_reply (server e h (languages_request f u (field r ''name'')))"
    and wr: "write_error e (target u filename) = None"
    and i: "i < length repos"
    and go: "\<forall>h. \<exists>r. server e h (languages_request f u (field (repos ! i) ''name'')) = Inr r
               \<and> \<not> error_status r
               \<and> json_body r = Inr (JObj [(''Go'', JInt a), (''Shell'', JInt b)])"
    by blast+
  from export_to_json_snapshot[OF wf lr wr, of w]
  obtain lss w' where r: "export_to_json e f repos u filename w = (Inr (), w')"
    and fs: "files w' = (files w)(target u filename \<mapsto> snapshot e u repos lss)"
    and len: "length lss = length repos"
    and each: "\<forall>i<length repos. \<exists>w0 w1.
                 get_repo_languages e f u (field (repos ! i) ''name'') w0 = (Inr (lss ! i), w1)"
    by auto
  from each i obtain w0 w1 where
    g: "get_repo_languages e f u (field (repos ! i) ''name'') w0 = (Inr (lss ! i), w1)" by blast
  from go obtain r0 where "server e (sent w0) (languages_request f u (field (repos ! i) ''name'')) = Inr r0"
    "\<not> error_status r0" "json_body r0 = Inr (JObj [(''Go'', JInt a), (''Shell'', JInt b)])" by blast
  from get_repo_languages_ok[OF this] g have li: "lss ! i = [''Go'', ''Shell'']" by simp
  let ?rs = "map (\<lambda>(r, ls). entry r ls) (zip repos lss)"
  have "?rs ! i = entry (repos ! i) (lss ! i)" using i len by simp
  then have la: "field (?rs ! i) ''languages'' = JList [JStr ''Go'', JStr ''Shell'']"
    by (simp add: li entry_def field_def)
  show "\<exists>w' doc rs.
             export_to_json e f repos u filename w = (Inr (), w')
           \<and> files w' (target u filename) = Some doc
           \<and> field doc ''repositories'' = JList rs
           \<and> field (rs ! i) ''languages'' = JList [JStr ''Go'', JStr ''Shell'']"
    apply (rule exI[of _ w'])
    apply (rule exI[of _ "snapshot e u repos lss"])
    apply (rule exI[of _ ?rs])
    apply (intro conjI)
       apply (rule r)
      apply (simp add: fs)
     apply (rule field_snapshot_repositories)
    apply (rule la)
    done
qed

theorem get_repo_languages_keys_witness:
  "get_repo_languages (serving languages_server) (init None) (JStr ''octocat'') (JStr ''hello'') (quiet_world []) =
     (Inr [''Go'', ''Shell''],
      (quiet_world [])\<lparr>sent := [languages_request (init None) (JStr ''octocat'') (JStr ''hello'')]\<rparr>)
   \<and> get_repo_languages (serving languages_server) (init None) (JStr ''octocat'') (JStr ''world'') (quiet_world []) =
     (Inr [],
      (quiet_world [])\<lparr>stdout := [''Error fetching languages for world: 404 Client Error: Not Found''],
                         sent := [languages_request (init None) (JStr ''octocat'') (JStr ''world'')]\<rparr>)
   \<and> (\<exists>w' doc rs.
         export_to_json (serving languages_server) (init None) [hello, world_repo] (JStr ''octocat'') None
           (quiet_world []) = (Inr (), w')
       \<and> files w' ''octocat_repositories.json'' = Some doc
       \<and> field doc ''repositories'' = JList rs
       \<and> field (rs ! 0) ''languages'' = JList [JStr ''Go'', JStr ''Shell''])"
proof -
  let ?e = "serving languages_server" and ?f = "init None" and ?u = "JStr ''octocat''" and ?w = "quiet_world []"
  note T = get_repo_languages_keys[of ?e ?w ?f ?u _ "[hello, world_repo]" None 0 120 4]
  have A: "get_repo_languages ?e ?f ?u (JStr ''hello'') ?w =
     (Inr (map fst [(''Go'', JInt 120), (''Shell'', JInt 4)]),
      ?w\<lparr>sent := sent ?w @ [languages_request ?f ?u (JStr ''hello'')]\<rparr>)"
    using T[of "JStr ''hello''", THEN conjunct1, rule_format,
        of "ok_response (JObj [(''Go'', JInt 120), (''Shell'', JInt 4)]) False" "[(''Go'', JInt 120), (''Shell'', JInt 4)]"]
    by (simp add: serving_def languages_server_def languages_request_def init_def py_str_def
          ok_response_def error_status_def)
  have B: "get_repo_languages ?e ?f ?u (JStr ''world'') ?w =
     (Inr [], print (''Error fetching languages for '' @ py_str (JStr ''world'') @ '': '' @ ''404 Client Error: Not Found'')
                (?w\<lparr>sent := sent ?w @ [languages_request ?f ?u (JStr ''world'')]\<rparr>))"
    using T[of "JStr ''world''", THEN conjunct2, THEN conjunct1, rule_format, of "''404 Client Error: Not Found''"]
    by (simp add: serving_def languages_server_def languages_request_def init_def py_str_def
          error_response_def error_status_def failure_def)
  have C: "\<exists>w' doc rs.
         export_to_json ?e ?f [hello, world_repo] ?u None ?w = (Inr (), w')
       \<and> files w' (target ?u None) = Some doc
       \<and> field doc ''repositories'' = JList rs
       \<and> field (rs ! 0) ''languages'' = JList [JStr ''Go'', JStr ''Shell'']"
    using T[of "JStr ''hello''", THEN conjunct2, THEN conjunct2] sample_repositories sample_languages
    by (simp add: serving_def languages_server_def languages_request_def init_def py_str_def
          ok_response_def error_status_def hello_def field_def)
  show ?thesis
    using A B C
    by (simp add: quiet_world_def print_def py_str_def target_def default_filename_def)
qed

section \<open>The search and the selection\<close>

lemma strip_blank:
  assumes "\<forall>c\<in>set s. is_space c"
  shows "strip s = []"
proof -
  from assms have d: "dropWhile is_space s = []" by (simp add: dropWhile_eq_Nil_conv)
  show ?thesis unfolding strip_def d by simp
qed

text \<open>
  C10. For every reply to the search with a status from 200 to 299 whose body is a JSON
  object without the key \<^verbatim>\<open>items\<close>, \<^verbatim>\<open>search_users\<close> returns the empty list, raises
  nothing and prints nothing: the very result of a search whose reply is
  \<^verbatim>\<open>{"items": []}\<close>.
\<close>

theorem search_users_without_items:
  assumes "server e (sent w) (search_request f query) = Inr r"
    and "200 \<le> status_code r" "status_code r < 300"
    and "json_body r = Inr (JObj kvs)"
    and "map_of kvs ''items'' = None"
  shows "search_users e f query w = (Inr (JList []), w\<lparr>sent := sent w @ [search_request f query]\<rparr>)
       \<and> (\<forall>e' r'. server e' (sent w) (search_request f query) = Inr r' \<and> \<not> error_status r'
               \<and> json_body r' = Inr (JObj [(''items'', JList [])])
             \<longrightarrow> search_users e' f query w = search_users e f query w)"
proof -
  from assms(2,3) have ok: "\<not> error_status r" by (simp add: error_status_def)
  have A: "search_users e f query w = (Inr (JList []), w\<lparr>sent := sent w @ [search_request f query]\<rparr>)"
    by (simp add: search_users_def catch_def bind_io_def fetch_ok[OF assms(1) ok assms(4)] eval_def assms(5))
  have B: "search_users e' f query w = (Inr (JList []), w\<lparr>sent := sent w @ [search_request f query]\<rparr>)"
    if "server e' (sent w) (search_request f query) = Inr r'" "\<not> error_status r'"
      "json_body r' = Inr (JObj [(''items'', JList [])])" for e' r'
    by (simp add: search_users_def catch_def bind_io_def fetch_ok[OF that] eval_def)
  show ?thesis using A B by auto
qed

theorem search_users_without_items_witness:
  "search_users (serving (items_server (JObj [(''total_count'', JInt 0)]))) (init None) ''octocat'' (quiet_world []) =
     (Inr (JList []), (quiet_world [])\<lparr>sent := [search_request (init None) ''octocat'']\<rparr>)
   \<and> search_users (serving (items_server (JObj [(''items'', JList [])]))) (init None) ''octocat'' (quiet_world []) =
     (Inr (JList []), (quiet_world [])\<lparr>sent := [search_request (init None) ''octocat'']\<rparr>)"
proof -
  let ?e = "serving (items_server (JObj [(''total_count'', JInt 0)]))"
  let ?e' = "serving (items_server (JObj [(''items'', JList [])]))"
  let ?r = "ok_response (JObj [(''total_count'', JInt 0)]) False"
  let ?r' = "ok_response (JObj [(''items'', JList [])]) False"
  have T: "search_users ?e (init None) ''octocat'' (quiet_world []) =
       (Inr (JList []), (quiet_world [])\<lparr>sent := sent (quiet_world []) @ [search_request (init None) ''octocat'']\<rparr>)
       \<and> (\<forall>e' r'. server e' (sent (quiet_world [])) (search_request (init None) ''octocat'') = Inr r' \<and> \<not> error_status r'
               \<and> json_body r' = Inr (JObj [(''items'', JList [])])
             \<longrightarrow> search_users e' (init None) ''octocat'' (quiet_world []) = search_users ?e (init None) ''octocat'' (quiet_world []))"
    by (rule search_users_without_items[where r = ?r and kvs = "[(''total_count'', JInt 0)]"])
       (simp_all add: serving_def items_server_def ok_response_def)
  from T have A: "search_users ?e (init None) ''octocat'' (quiet_world []) =
       (Inr (JList []), (quiet_world [])\<lparr>sent := sent (quiet_world []) @ [search_request (init None) ''octocat'']\<rparr>)"
    by (rule conjunct1)
  from T have "search_users ?e' (init None) ''octocat'' (quiet_world []) = search_users ?e (init None) ''octocat'' (quiet_world [])"
    by (elim conjE allE[of _ ?e'] allE[of _ ?r'])
       (simp add: serving_def items_server_def ok_response_def error_status_def)
  with A show ?thesis by (simp add: quiet_world_def)
qed

text \<open>
  C7. For every query line made of whitespace only, the empty line included,
  \<^verbatim>\<open>search_and_display\<close> sends no request, prints \<^verbatim>\<open>Please enter a search query.\<close> and
  returns without a result: apart from the line read and the two texts written, the world
  is as it was.
\<close>

theorem search_and_display_blank_query:
  assumes "stdin w = query # rest" and "\<forall>c\<in>set query. is_space c"
  shows "search_and_display e f w =
           Some (Inr (), w\<lparr>stdin := rest,
                          stdout := stdout w @ [nl # ''Enter GitHub username or name to search: '',
                                                ''Please enter a search query.'']\<rparr>)"
  by (simp add: search_and_display_def input_def assms(1) strip_blank[OF assms(2)] say_def print_def)

theorem search_and_display_blank_query_witness:
  "search_and_display (serving two_pages) (init None) (quiet_world [''   '', ''2'']) =
     Some (Inr (), (quiet_world [''2''])\<lparr>stdout := [nl # ''Enter GitHub username or name to search: '',
                                                     ''Please enter a search query.'']\<rparr>)
   \<and> search_and_display (serving two_pages) (init None) (quiet_world ['''']) =
     Some (Inr (), (quiet_world [])\<lparr>stdout := [nl # ''Enter GitHub username or name to search: '',
                                                     ''Please enter a search query.'']\<rparr>)"
  using search_and_display_blank_query[of "quiet_world [''   '', ''2'']" "''   ''" "[''2'']" "serving two_pages" "init None"]
    search_and_display_blank_query[of "quiet_world ['''']" "''''" "[]" "serving two_pages" "init None"]
  by (simp add: quiet_world_def is_space_def)

lemma py_get_obj_default: "py_get (JObj kvs) k d = Inr (case map_of kvs k of None \<Rightarrow> d | Some v \<Rightarrow> v)"
  by (simp split: option.splits)

lemma bind_say: "bind_io (say s) k w = k () (print s w)"
  by (simp add: bind_io_def say_def)

lemma tell_Inr: "tell pre (Inr v) post = say (pre @ py_str v @ post)"
  by (simp add: tell_def bind_io_def eval_def fun_eq_iff)

lemma prints_only_say: "prints_only (say s)"
  by (simp add: prints_only_def say_def print_def)

lemma prints_only_return: "prints_only (return ())"
  by (simp add: prints_only_def return_def)

lemma prints_only_bind:
  assumes "prints_only m" "prints_only k"
  shows "prints_only (bind_io m (\<lambda>_. k))"
  unfolding prints_only_def
proof
  fix w
  from assms(1) obtain w1 where a: "m w = (Inr (), w1)" "stdin w1 = stdin w" "sent w1 = sent w"
    "files w1 = files w" "pauses w1 = pauses w" unfolding prints_only_def by blast
  from assms(2) obtain w2 where b: "k w1 = (Inr (), w2)" "stdin w2 = stdin w1" "sent w2 = sent w1"
    "files w2 = files w1" "pauses w2 = pauses w1" unfolding prints_only_def by blast
  show "\<exists>w'. bind_io m (\<lambda>_. k) w = (Inr (), w') \<and> stdin w' = stdin w \<and> sent w' = sent w
              \<and> files w' = files w \<and> pauses w' = pauses w"
    by (simp add: bind_io_def a b)
qed

lemma prints_only_run_all:
  assumes "\<forall>m\<in>set ms. prints_only m"
  shows "prints_only (run_all ms)"
  using assms
proof (induction ms)
  case Nil
  show ?case by (simp add: prints_only_return)
next
  case (Cons m ms)
  then show ?case by (simp add: prints_only_bind)
qed

lemma show_user_ok:
  assumes "candidate u"
  shows "prints_only (show_user i u)"
proof -
  from assms obtain kvs l where u: "u = JObj kvs" and l: "map_of kvs ''login'' = Some l"
    and bio: "case field (JObj kvs) ''bio'' of JStr s \<Rightarrow> True | v \<Rightarrow> \<not> truthy v"
    by (auto simp: candidate_def split: json.splits)
  have g: "py_get (JObj kvs) ''bio'' JNull = Inr (field (JObj kvs) ''bio'')"
    by (simp add: field_def split: option.splits)
  have A: "prints_only (bind_io (eval (py_getitem (JObj kvs) ''login'')) (\<lambda>login.
         tell (show_nat i @ ''. '' @ py_str login @ '' - '') (py_get (JObj kvs) ''name'' (JStr ''N/A'')) []))"
    by (simp only: py_getitem_obj[OF l] py_get_obj_default bind_eval_Inr tell_Inr prints_only_say)
  have B: "prints_only (bind_io (eval (py_get (JObj kvs) ''bio'' JNull)) (\<lambda>bio.
         if truthy bio
         then bind_io (eval (py_getitem (JObj kvs) ''bio'')) (\<lambda>b.
                tell (''   '' @ pict [0x11F, 0x178, 0x201C] @ '' '') (py_slice b 80) ''...'')
         else return ()))"
  proof (cases "truthy (field (JObj kvs) ''bio'')")
    case False
    then show ?thesis by (simp only: g bind_eval_Inr if_False prints_only_return)
  next
    case True
    with bio obtain s where s: "field (JObj kvs) ''bio'' = JStr s"
      by (cases "field (JObj kvs) ''bio''") auto
    then have m: "map_of kvs ''bio'' = Some (JStr s)"
      by (auto simp: field_def split: option.splits)
    have sl: "py_slice (JStr s) 80 = Inr (JStr (take 80 s))" by simp
    show ?thesis
      using True
      by (simp only: g bind_eval_Inr if_True py_getitem_obj[OF m] sl tell_Inr prints_only_say)
  qed
  have C: "prints_only (bind_io (eval (py_get (JObj kvs) ''followers'' (JInt 0))) (\<lambda>followers.
         tell (''   '' @ pict [0x11F, 0x178, 0x2018, 0xA4] @ '' Followers: '' @ py_str followers @
               '' | Public Repos: '')
           (py_get (JObj kvs) ''public_repos'' (JInt 0)) []))"
    by (simp only: py_get_obj_default bind_eval_Inr tell_Inr prints_only_say)
  show ?thesis
    unfolding show_user_def u run_all.simps
    apply (rule prints_only_bind[OF A])
    apply (rule prints_only_bind[OF B])
    apply (rule prints_only_bind[OF C])
    apply (rule prints_only_bind[OF prints_only_say])
    apply (rule prints_only_return)
    done
qed

lemma show_users_ok:
  assumes "\<forall>u\<in>set us. candidate u"
  shows "prints_only (show_users us i)"
  using assms
proof (induction us arbitrary: i)
  case Nil
  show ?case by (simp add: prints_only_return)
next
  case (Cons u us)
  then show ?case by (simp add: prints_only_bind show_user_ok)
qed

lemma display_user_selection_listing:
  assumes "us \<noteq> []" "\<forall>u\<in>set us. candidate u"
  shows "display_user_selection (JList us) w = selection_loop (JList us) (listing us w)"
    and "stdin (listing us w) = stdin w" and "sent (listing us w) = sent w"
    and "files (listing us w) = files w"
proof -
  let ?w = "print (replicate 50 CHR ''-'') (print (nl # pict [0x11F, 0x178, 0x201D] @ '' Search Results:'') w)"
  from show_users_ok[OF assms(2), of "Suc 0"] obtain w' where
    a: "show_users us (Suc 0) ?w = (Inr (), w')" "stdin w' = stdin ?w" "sent w' = sent ?w" "files w' = files ?w"
    unfolding prints_only_def by blast
  have l: "listing us w = w'"
    by (simp add: listing_def bind_say a)
  show "display_user_selection (JList us) w = selection_loop (JList us) (listing us w)"
    using assms(1) by (simp add: display_user_selection_def bind_say bind_eval_Inr l) (simp add: bind_io_def a)
  show "stdin (listing us w) = stdin w" "sent (listing us w) = sent w" "files (listing us w) = files w"
    using a by (simp_all add: l print_def)
qed

lemma small_cases: "k < 10 \<Longrightarrow> k \<in> set [0, 1, 2, 3, 4, 5, 6, 7, 8, 9 :: nat]"
  by (simp add: numeral_eq_Suc less_Suc_eq) 

lemma digit_char_all:
  "\<forall>k\<in>set [0, 1, 2, 3, 4, 5, 6, 7, 8, 9 :: nat].
     is_digit (digit_char k) \<and> digit_val (digit_char k) = int k \<and> \<not> is_space (digit_char k)
     \<and> digit_char k \<noteq> CHR ''_'' \<and> digit_char k \<notin> set ''+-''"
  by (simp add: digit_char_def is_digit_def digit_val_def is_space_def)

lemma digit_char_facts:
  assumes "k < 10"
  shows "is_digit (digit_char k)" "digit_val (digit_char k) = int k" "\<not> is_space (digit_char k)"
  using digit_char_all small_cases[OF assms] by blast+

lemma is_digit_facts:
  assumes "is_digit c"
  shows "\<not> is_space c" "c \<noteq> CHR ''_''" "c \<notin> set ''+-''"
proof -
  have "\<forall>c\<in>set ''0123456789''. \<not> is_space c \<and> c \<noteq> CHR ''_'' \<and> c \<notin> set ''+-''"
    by (simp add: is_space_def)
  with assms show "\<not> is_space c" "c \<noteq> CHR ''_''" "c \<notin> set ''+-''"
    by (simp_all only: is_digit_def) blast+
qed

lemma show_nat_digits: "show_nat n \<noteq> [] \<and> (\<forall>c\<in>set (show_nat n). is_digit c)"
proof (induction n rule: show_nat.induct)
  case (1 n)
  show ?case
  proof (cases "n < 10")
    case True
    then show ?thesis by (subst show_nat.simps, subst (2) show_nat.simps) (simp add: digit_char_facts)
  next
    case False
    with 1 have IH: "show_nat (n div 10) \<noteq> [] \<and> (\<forall>c\<in>set (show_nat (n div 10)). is_digit c)" by simp
    have "n mod 10 < 10" by simp
    then have d: "is_digit (digit_char (n mod 10))" by (rule digit_char_facts)
    have eq: "show_nat n = show_nat (n div 10) @ [digit_char (n mod 10)]"
      using False by (subst show_nat.simps) simp
    show ?thesis unfolding eq using IH d by simp
  qed
qed

lemma digits_ok_all:
  "s \<noteq> [] \<Longrightarrow> \<forall>c\<in>set s. is_digit c \<Longrightarrow> digits_ok s"
proof (induction s rule: digits_ok.induct)
  case 1
  then show ?case by simp
next
  case (2 c)
  then show ?case by simp
next
  case (3 c d cs)
  from "3.prems" have d: "is_digit d" "is_digit c" by simp_all
  then have "d \<noteq> CHR ''_''" by (simp add: is_digit_facts)
  with 3 d show ?case by simp
qed

lemma value_show_nat: "foldl (\<lambda>a c. 10 * a + digit_val c) 0 (show_nat n) = int n"
proof (induction n rule: show_nat.induct)
  case (1 n)
  show ?case
  proof (cases "n < 10")
    case True
    then have "show_nat n = [digit_char n]" by (subst show_nat.simps) simp
    with True show ?thesis by (simp add: digit_char_facts)
  next
    case False
    with 1 have IH: "foldl (\<lambda>a c. 10 * a + digit_val c) 0 (show_nat (n div 10)) = int (n div 10)" by simp
    have eq: "show_nat n = show_nat (n div 10) @ [digit_char (n mod 10)]"
      using False by (subst show_nat.simps) simp
    have "n mod 10 < 10" by simp
    then have v: "digit_val (digit_char (n mod 10)) = int (n mod 10)" by (rule digit_char_facts)
    have "10 * int (n div 10) + int (n mod 10) = int n"
      by (simp add: zdiv_int zmod_int)
    then show ?thesis unfolding eq by (simp add: IH v)
  qed
qed

lemma strip_digits:
  assumes "s \<noteq> []" "\<forall>c\<in>set s. is_digit c"
  shows "strip s = s"
proof -
  from assms have "\<not> is_space (hd s)" by (simp add: is_digit_facts)
  then have a: "dropWhile is_space s = s" by (simp add: dropWhile_eq_self_iff)
  from assms have "\<not> is_space (hd (rev s))" by (simp add: hd_rev is_digit_facts)
  then have b: "dropWhile is_space (rev s) = rev s" by (simp add: dropWhile_eq_self_iff)
  show ?thesis by (simp add: strip_def a b)
qed

lemma py_int_show_nat:
  "py_int (show_nat n) = (if length (show_nat n) \<le> max_str_digits then Some (int n) else None)"
proof -
  from show_nat_digits[of n] have ne: "show_nat n \<noteq> []" and ds: "\<forall>c\<in>set (show_nat n). is_digit c"
    by simp_all
  have s: "strip (show_nat n) = show_nat n" by (rule strip_digits[OF ne ds])
  from ne ds have "is_digit (hd (show_nat n))" by simp
  then have h: "hd (show_nat n) \<notin> set ''+-''" "hd (show_nat n) \<noteq> CHR ''-''"
    by (auto dest: is_digit_facts(3))
  have f: "filter is_digit (show_nat n) = show_nat n" using ds by simp
  show ?thesis
    using h ne by (simp add: py_int_def s Let_def f value_show_nat digits_ok_all[OF ne ds])
qed

lemma lower_char_digits: "\<forall>c\<in>set ''0123456789''. lower_char c = c"
  by (simp add: lower_char_def upper_letters_def lower_letters_def)

lemma lower_char_digit: "is_digit c \<Longrightarrow> lower_char c = c"
  using lower_char_digits by (simp only: is_digit_def)

lemma strip_single: "strip [c] = (if is_space c then [] else [c])"
  by (simp add: strip_def)

lemma py_int_single:
  assumes "py_int [c] = Some n"
  shows "is_digit c"
proof (cases "is_space c")
  case True
  with assms show ?thesis by (simp add: py_int_def strip_single)
next
  case False
  show ?thesis
  proof (cases "c \<in> set ''+-''")
    case True
    with assms False show ?thesis by (simp add: py_int_def strip_single Let_def)
  next
    case no_sign: False
    with assms False show ?thesis
      by (simp add: py_int_def strip_single Let_def split: if_splits)
  qed
qed

lemma py_int_not_quit:
  assumes "py_int s = Some n"
  shows "lower s \<noteq> ''q''"
proof
  assume "lower s = ''q''"
  then obtain c where s: "s = [c]" and c: "lower_char c = CHR ''q''"
    by (auto simp: lower_def)
  from assms s have d: "is_digit c" by (auto dest: py_int_single)
  with c have "c = CHR ''q''" by (simp add: lower_char_digit)
  with d show False by (simp add: is_digit_def)
qed

lemma lower_digits_not_quit:
  assumes "\<forall>c\<in>set s. is_digit c"
  shows "lower s \<noteq> ''q''"
proof
  assume "lower s = ''q''"
  then obtain c where s: "s = [c]" and c: "lower_char c = CHR ''q''"
    by (auto simp: lower_def)
  from assms s have d: "is_digit c" by simp
  with c have "c = CHR ''q''" by (simp add: lower_char_digit)
  with d show False by (simp add: is_digit_def)
qed

lemma text_facts:
  "lower ''0'' \<noteq> ''q''" "py_int ''0'' = Some 0"
  "lower [] \<noteq> ''q''" "py_int [] = None"
  "lower ''abc'' \<noteq> ''q''" "py_int ''abc'' = None"
  "lower ''q'' = ''q''" "lower ''Q'' = ''q''"
  by (simp_all add: lower_def lower_char_def upper_letters_def lower_letters_def py_int_def strip_def
        is_space_def is_digit_def digit_val_def max_str_digits_def)

lemma selection_loop_step:
  assumes "stdin w = line # rest"
  shows "selection_loop users w =
     (if lower (strip line) = ''q'' then (Inr JNull, (print select_prompt w)\<lparr>stdin := rest\<rparr>)
      else (case py_int (strip line) of
              None \<Rightarrow> selection_loop users (print not_a_number ((print select_prompt w)\<lparr>stdin := rest\<rparr>))
            | Some choice_num \<Rightarrow>
                (case py_len users of
                   Inl er \<Rightarrow> (Inl er, (print select_prompt w)\<lparr>stdin := rest\<rparr>)
                 | Inr n \<Rightarrow>
                     if 1 \<le> choice_num \<and> choice_num \<le> int n
                     then bind_io (eval (py_index users (nat (choice_num - 1)))) (\<lambda>user.
                            eval (py_getitem user ''login'')) ((print select_prompt w)\<lparr>stdin := rest\<rparr>)
                     else selection_loop users (print (out_of_range n) ((print select_prompt w)\<lparr>stdin := rest\<rparr>)))))"
  by (subst selection_loop.simps) (simp add: input_def assms Let_def)

lemma candidate_login:
  assumes "candidate u"
  shows "py_getitem u ''login'' = Inr (field u ''login'')"
  using assms by (auto simp: candidate_def field_def split: json.splits)

text \<open>
  C6. For every non-empty list of users and every line read at the prompt of
  \<^verbatim>\<open>display_user_selection\<close>: on \<^verbatim>\<open>0\<close>, on the empty line, on \<^verbatim>\<open>abc\<close> and on the numeral
  of any integer larger than the length of the list, the function prints a message and is
  back at its prompt with the remaining lines, neither returning a selection nor raising;
  on \<^verbatim>\<open>q\<close> or \<^verbatim>\<open>Q\<close> it returns no selection at once; on a line that reads as an integer
  \<open>n\<close> between 1 and the length of the list it returns the login of the \<open>n\<close>-th user,
  counting from 1. Surrounding whitespace is ignored throughout.
\<close>

theorem display_user_selection_prompt:
  assumes "us \<noteq> []" and "\<forall>u\<in>set us. candidate u" and "stdin w = line # rest"
  shows
   "(strip line = ''0'' \<longrightarrow>
       display_user_selection (JList us) w =
       selection_loop (JList us) (print (out_of_range (length us)) (prompted us rest w)))
  \<and> (strip line = [] \<or> strip line = ''abc'' \<longrightarrow>
       display_user_selection (JList us) w =
       selection_loop (JList us) (print not_a_number (prompted us rest w)))
  \<and> (\<forall>k. length us < k \<and> strip line = show_nat k \<longrightarrow>
       display_user_selection (JList us) w =
       selection_loop (JList us)
         (print (if length (show_nat k) \<le> max_str_digits then out_of_range (length us)
                 else not_a_number)
            (prompted us rest w)))
  \<and> (strip line = ''q'' \<or> strip line = ''Q'' \<longrightarrow>
       display_user_selection (JList us) w = (Inr JNull, prompted us rest w))
  \<and> (\<forall>n. py_int (strip line) = Some n \<and> 1 \<le> n \<and> n \<le> int (length us) \<longrightarrow>
       display_user_selection (JList us) w =
       (Inr (field (us ! nat (n - 1)) ''login''), prompted us rest w))"
proof -
  note L = display_user_selection_listing[OF assms(1,2), of w]
  from L(2) assms(3) have st: "stdin (listing us w) = line # rest" by simp
  note S = selection_loop_step[OF st, of "JList us", folded prompted_def]
  have d: "display_user_selection (JList us) w = selection_loop (JList us) (listing us w)"
    by (rule L(1))
  show ?thesis
  proof (intro conjI impI allI)
    assume "strip line = ''0''"
    then show "display_user_selection (JList us) w =
       selection_loop (JList us) (print (out_of_range (length us)) (prompted us rest w))"
      by (simp add: d S text_facts)
  next
    assume "strip line = [] \<or> strip line = ''abc''"
    then show "display_user_selection (JList us) w =
       selection_loop (JList us) (print not_a_number (prompted us rest w))"
      by (auto simp: d S text_facts)
  next
    fix k assume a: "length us < k \<and> strip line = show_nat k"
    then have sl: "strip line = show_nat k" and k: "length us < k" by simp_all
    have q: "lower (show_nat k) \<noteq> ''q''"
      using show_nat_digits[of k] by (intro lower_digits_not_quit) simp
    show "display_user_selection (JList us) w =
       selection_loop (JList us)
         (print (if length (show_nat k) \<le> max_str_digits then out_of_range (length us)
                 else not_a_number)
            (prompted us rest w))"
      using k by (simp add: d S sl q py_int_show_nat)
  next
    assume "strip line = ''q'' \<or> strip line = ''Q''"
    then show "display_user_selection (JList us) w = (Inr JNull, prompted us rest w)"
      by (auto simp: d S text_facts)
  next
    fix n assume a: "py_int (strip line) = Some n \<and> 1 \<le> n \<and> n \<le> int (length us)"
    then have q: "lower (strip line) \<noteq> ''q''" by (auto dest: py_int_not_quit)
    from a have i: "nat (n - 1) < length us" by auto
    then have "candidate (us ! nat (n - 1))" using assms(2) by simp
    then have l: "py_getitem (us ! nat (n - 1)) ''login'' = Inr (field (us ! nat (n - 1)) ''login'')"
      by (rule candidate_login)
    from a q i show "display_user_selection (JList us) w =
       (Inr (field (us ! nat (n - 1)) ''login''), prompted us rest w)"
      by (simp add: d S bind_io_def eval_def l)
  qed
qed

lemma sample_candidates: "\<forall>u\<in>set [octocat, octodog]. candidate u"
  by (simp add: octocat_def octodog_def candidate_def field_def)

theorem display_user_selection_prompt_witness:
  "display_user_selection (JList [octocat, octodog]) (quiet_world [''0'', ''q'']) =
     selection_loop (JList [octocat, octodog])
       (print (out_of_range 2) (prompted [octocat, octodog] [''q''] (quiet_world [''0'', ''q''])))
   \<and> display_user_selection (JList [octocat, octodog]) (quiet_world [''abc'']) =
     selection_loop (JList [octocat, octodog])
       (print not_a_number (prompted [octocat, octodog] [] (quiet_world [''abc''])))
   \<and> display_user_selection (JList [octocat, octodog]) (quiet_world [''7'']) =
     selection_loop (JList [octocat, octodog])
       (print (out_of_range 2) (prompted [octocat, octodog] [] (quiet_world [''7''])))
   \<and> display_user_selection (JList [octocat, octodog]) (quiet_world [''Q'', ''1'']) =
     (Inr JNull, prompted [octocat, octodog] [''1''] (quiet_world [''Q'', ''1'']))
   \<and> display_user_selection (JList [octocat, octodog]) (quiet_world ['' 2 '']) =
     (Inr (JStr ''octodog''), prompted [octocat, octodog] [] (quiet_world ['' 2 '']))"
proof -
  let ?us = "[octocat, octodog]"
  have ne: "?us \<noteq> []" by simp
  note T = display_user_selection_prompt[OF ne sample_candidates]
  have st: "strip ''0'' = ''0''" "strip ''abc'' = ''abc''" "strip ''7'' = ''7''" "strip ''Q'' = ''Q''"
    "strip '' 2 '' = ''2''"
    by (simp_all add: strip_def is_space_def)
  have seven: "show_nat 7 = ''7''" by (simp add: show_nat.simps digit_char_def)
  have two: "py_int ''2'' = Some 2"
    by (simp add: py_int_def strip_def is_space_def is_digit_def digit_val_def max_str_digits_def)
  have A: "display_user_selection (JList ?us) (quiet_world [''0'', ''q'']) =
     selection_loop (JList ?us) (print (out_of_range (length ?us)) (prompted ?us [''q''] (quiet_world [''0'', ''q''])))"
    using T[of "quiet_world [''0'', ''q'']" "''0''" "[''q'']"] by (simp add: quiet_world_def st)
  have B: "display_user_selection (JList ?us) (quiet_world [''abc'']) =
     selection_loop (JList ?us) (print not_a_number (prompted ?us [] (quiet_world [''abc''])))"
    using T[of "quiet_world [''abc'']" "''abc''" "[]"] by (simp add: quiet_world_def st)
  have C: "display_user_selection (JList ?us) (quiet_world [''7'']) =
     selection_loop (JList ?us) (print (out_of_range (length ?us)) (prompted ?us [] (quiet_world [''7''])))"
    using T[of "quiet_world [''7'']" "''7''" "[]", THEN conjunct2, THEN conjunct2, THEN conjunct1,
            rule_format, of 7]
    by (simp add: quiet_world_def st seven max_str_digits_def)
  have D: "display_user_selection (JList ?us) (quiet_world [''Q'', ''1'']) =
     (Inr JNull, prompted ?us [''1''] (quiet_world [''Q'', ''1'']))"
    using T[of "quiet_world [''Q'', ''1'']" "''Q''" "[''1'']"] by (simp add: quiet_world_def st)
  have E: "display_user_selection (JList ?us) (quiet_world ['' 2 '']) =
     (Inr (field (?us ! nat (2 - 1)) ''login''), prompted ?us [] (quiet_world ['' 2 '']))"
    using T[of "quiet_world ['' 2 '']" "'' 2 ''" "[]", THEN conjunct2, THEN conjunct2, THEN conjunct2,
            THEN conjunct2, rule_format, of 2]
    by (simp add: quiet_world_def st two)
  have F: "field octodog ''login'' = JStr ''octodog''"
    by (simp add: octodog_def field_def)
  show ?thesis
    using A B C D E by (simp add: F numeral_2_eq_2)
qed

section \<open>The display and the session\<close>

lemmas run_defs = bind_io_def tell_def eval_def say_def print_def return_def catch_def fetch_def
  requests_get_def raise_for_status_def response_json_def error_status_def

lemma show_nat_1: "show_nat (Suc 0) = ''1''"
  by (simp add: show_nat.simps digit_char_def)

text \<open>
  C8. \<^verbatim>\<open>display_repos\<close> is to render \<^verbatim>\<open>No description\<close>, \<^verbatim>\<open>N/A\<close> and 0 for optional
  fields that are missing, also when the field is there with the value null. With the key
  missing it does (the description, stars and forks of the second repository below). With
  a null it does not: \<^verbatim>\<open>{"name": "hello", "description": null, "stargazers_count": null}\<close>
  is shown with \<^verbatim>\<open>Description: None\<close> and \<^verbatim>\<open>Stars: None\<close>, and for
  \<^verbatim>\<open>{"name": "hello", "updated_at": null}\<close> the slice \<^verbatim>\<open>[:10]\<close> raises \<^verbatim>\<open>TypeError\<close> after
  the line of the forks.
\<close>

theorem display_repos_null_fields:
  "display_repos (serving languages_server) (init None) [null_description] (JStr ''octocat'') (quiet_world []) =
  (Inr (),
   (quiet_world [])\<lparr>stdout :=
     [nl # pict [0x11F, 0x178, 0x201C, 0x201A] @ '' Repositories for octocat (1 found)'',
      replicate 80 CHR ''='',
      nl # ''1. hello'',
      ''   '' @ pict [0x11F, 0x178, 0x201C, 0x2013] @ '' Description: None'',
      ''   '' @ pict [0x11F, 0x178, 0x152, 0x178] @ '' Stars: None'',
      ''   '' @ pict [0x11F, 0x178, 0xB4] @ '' Forks: 0'',
      ''   '' @ pict [0x11F, 0x178, 0x201C, 0x2026] @ '' Updated: N/A'',
      ''   '' @ pict [0x11F, 0x178, 0x201D, 0x2014] @ '' URL: N/A'',
      ''   '' @ pict [0x11F, 0x178, 0x2019, 0xBB] @ '' Technologies: Go, Shell'',
      replicate 60 CHR ''-''],
     sent := [languages_request (init None) (JStr ''octocat'') (JStr ''hello'')]\<rparr>)
   \<and> display_repos (serving languages_server) (init None) [null_updated] (JStr ''octocat'') (quiet_world []) =
  (Inl TypeError,
   (quiet_world [])\<lparr>stdout :=
     [nl # pict [0x11F, 0x178, 0x201C, 0x201A] @ '' Repositories for octocat (1 found)'',
      replicate 80 CHR ''='',
      nl # ''1. hello'',
      ''   '' @ pict [0x11F, 0x178, 0x201C, 0x2013] @ '' Description: No description'',
      ''   '' @ pict [0x11F, 0x178, 0x152, 0x178] @ '' Stars: 0'',
      ''   '' @ pict [0x11F, 0x178, 0xB4] @ '' Forks: 0'']\<rparr>)"
  by (simp add: display_repos_def display_repo_def null_description_def null_updated_def run_defs
        py_str_def quiet_world_def show_nat_1 show_int_def show_nat.simps digit_char_def
        get_repo_languages_def serving_def languages_server_def languages_request_def init_def
        ok_response_def)

text \<open>
  C9. No outcome of a remote call and no input is to end the session with an exception
  that nothing handles. Two runs of \<^verbatim>\<open>run\<close> that do: the search answers with status 200
  and the JSON array \<^verbatim>\<open>[]\<close>, so that \<^verbatim>\<open>data.get\<close> raises \<^verbatim>\<open>AttributeError\<close>, which the
  handler for \<^verbatim>\<open>RequestException\<close> lets through; and standard input ends at the prompt
  for the query, so that \<^verbatim>\<open>input\<close> raises \<^verbatim>\<open>EOFError\<close>.
\<close>

theorem run_unhandled_exceptions:
  "map_option fst (run (serving array_server) (init None) (quiet_world [''1'', ''octocat''])) =
    Some (Inl AttributeError)
   \<and> map_option fst (run (serving array_server) (init None) (quiet_world [''1''])) =
    Some (Inl EOFError)"
  by (simp add: run_def run_loop.simps search_and_display_def search_users_def run_defs input_def
        quiet_world_def strip_def is_space_def serving_def array_server_def ok_response_def
        search_request_def)

end
